theory Spec2Isabelle
  imports Complex_Main "HOL-Library.Word" "HOL-Library.Char_ord" "HOL-Library.List_Lexorder"
  "HOL-Library.Log_Nat"
begin

section \<open>AtomicStructure::make_chains: the error budget handed to try\_assoc\<close>

text \<open>
  C++ \<open>unsigned int\<close> is a 32-bit word: \<open>+\<close> wraps, \<open>/\<close> is
  unsigned division. \<open>std::min(a, b)\<close> returns \<open>b\<close> when \<open>b <
  a\<close> and \<open>a\<close> otherwise; \<open>std::max(a, b)\<close> returns
  \<open>b\<close> when \<open>a < b\<close> and \<open>a\<close> otherwise.
\<close>

type_synonym uint = "32 word"

definition std_min :: "uint \<Rightarrow> uint \<Rightarrow> uint" where
  "std_min a b = (if b < a then b else a)"

definition std_max :: "uint \<Rightarrow> uint \<Rightarrow> uint" where
  "std_max a b = (if a < b then b else a)"

text \<open>
  The result of \<open>estimate_assoc_params\<close> (declared in seq\_assoc.h, which is absent
  from the sources): only the fields that \<open>make_chains\<close> reads.
\<close>

record AssocParams =
  est_len :: uint
  segments :: "string list"
  gaps :: "uint list"

text \<open>\<open>unsigned int gap_sum = 0; for (auto gap: ap.gaps) gap_sum += gap;\<close>\<close>

fun gap_sum_loop :: "uint \<Rightarrow> uint list \<Rightarrow> uint" where
  "gap_sum_loop gap_sum [] = gap_sum"
| "gap_sum_loop gap_sum (gap # rest) = gap_sum_loop (gap_sum + gap) rest"

text \<open>
  \<open>unsigned int seq_len = chain->size();\<close> converts the \<open>size_t\<close> length
  to \<open>unsigned int\<close>; then \<open>max_errs = std::min(seq_len/2,
  std::max(seq_len/10, gap_sum))\<close>.
\<close>

definition make_chains_max_errs :: "nat \<Rightarrow> AssocParams \<Rightarrow> uint" where
  "make_chains_max_errs chain_size ap =
     (let seq_len = (of_nat chain_size :: uint);
          gap_sum = gap_sum_loop 0 (gaps ap)
      in std_min (seq_len div 2) (std_max (seq_len div 10) gap_sum))"

text \<open>
  The call \<open>try_assoc(sr_seq, *chain, ap, max_errs)\<close>, with \<open>sr_seq\<close> and
  \<open>ap\<close> as they are when the call is made; \<open>try_assoc\<close>
  itself is a parameter (its body is in seq\_assoc.cpp), a chain is given by its character
  contents, and \<open>None\<close> stands for the \<open>SA_AssocFailure\<close> exception
  caught by the caller.
\<close>

definition make_chains_try_assoc ::
    "(string \<Rightarrow> string \<Rightarrow> AssocParams \<Rightarrow> uint \<Rightarrow> 'r option) \<Rightarrow>
     string \<Rightarrow> string \<Rightarrow> AssocParams \<Rightarrow> 'r option" where
  "make_chains_try_assoc try_assoc sr_seq chain ap =
     try_assoc sr_seq chain ap (make_chains_max_errs (length chain) ap)"

section \<open>Errors thrown by the C++ code\<close>

datatype error =
    Invalid_argument string
  | Out_of_range string
  | Use_after_delete

section \<open>Single-precision floating point\<close>

text \<open>
  The C++ type \<open>float\<close> as the code is compiled for x86-64: IEEE 754 binary32,
  every operation rounded to nearest with ties to even. A value is a rational number (one that
  the format holds, when it is the result of an operation), an infinity, or NaN. The sign of a
  zero is not kept: the modelled code adds floats, divides a float by a count and compares
  floats, and none of these results depends on the sign of a zero.
\<close>

datatype float = Finite rat | PInf | NInf | NaN

text \<open>\<open>pow2 e\<close> is 2 to the power \<open>e\<close>, for an integer exponent.\<close>

definition pow2 :: "int \<Rightarrow> rat" where
  "pow2 e = (if 0 \<le> e then 2 ^ nat e else 1 / 2 ^ nat (- e))"

text \<open>
  For a positive rational \<open>x\<close>, the exponent \<open>e\<close> with \<open>2^e \<le> x <
  2^(e+1)\<close>: the difference of the bit lengths of numerator and denominator, or one less.
\<close>

definition binary_exponent :: "rat \<Rightarrow> int" where
  "binary_exponent x =
     (case quotient_of x of (p, q) \<Rightarrow>
        let d = bitlen p - bitlen q
        in if pow2 d \<le> x then d else d - 1)"

text \<open>The nearest integer; a number halfway between two integers goes to the even one.\<close>

definition round_half_even :: "rat \<Rightarrow> int" where
  "round_half_even x =
     (let n = \<lfloor>x\<rfloor> in
      if x - of_int n < 1 / 2 then n
      else if 1 / 2 < x - of_int n then n + 1
      else if even n then n else n + 1)"

text \<open>
  Rounding of a positive rational to binary32: 24 significant bits, so the spacing of the
  values around \<open>x\<close> is \<open>2^(e-23)\<close>; the exponent is not taken below -126
  (subnormal numbers), and a result of \<open>2^128\<close> or more is infinity.
\<close>

definition round_positive :: "rat \<Rightarrow> float" where
  "round_positive x =
     (let e = max (binary_exponent x) (- 126);
          ulp = pow2 (e - 23);
          r = of_int (round_half_even (x / ulp)) * ulp
      in if pow2 128 \<le> r then PInf else Finite r)"

fun fneg :: "float \<Rightarrow> float" where
  "fneg (Finite x) = Finite (- x)"
| "fneg PInf = NInf"
| "fneg NInf = PInf"
| "fneg NaN = NaN"

definition round_float :: "rat \<Rightarrow> float" where
  "round_float x =
     (if x = 0 then Finite 0
      else if 0 < x then round_positive x
      else fneg (round_positive (- x)))"

text \<open>The conversion of an \<open>int\<close> to \<open>float\<close>.\<close>

definition int_to_float :: "int \<Rightarrow> float" where
  "int_to_float n = round_float (of_int n)"

text \<open>\<open>x + y\<close> on floats.\<close>

fun fadd :: "float \<Rightarrow> float \<Rightarrow> float" where
  "fadd (Finite x) (Finite y) = round_float (x + y)"
| "fadd (Finite x) PInf = PInf"
| "fadd (Finite x) NInf = NInf"
| "fadd PInf (Finite y) = PInf"
| "fadd PInf PInf = PInf"
| "fadd PInf NInf = NaN"
| "fadd NInf (Finite y) = NInf"
| "fadd NInf NInf = NInf"
| "fadd NInf PInf = NaN"
| "fadd NaN y = NaN"
| "fadd x NaN = NaN"

text \<open>
  \<open>x / y\<close> on floats. A divisor that is zero is the positive zero: the divisors of
  the modelled code are counts converted to \<open>float\<close>.
\<close>

fun fdiv :: "float \<Rightarrow> float \<Rightarrow> float" where
  "fdiv (Finite x) (Finite y) =
     (if y = 0 then (if x = 0 then NaN else if 0 < x then PInf else NInf)
      else round_float (x / y))"
| "fdiv (Finite x) PInf = Finite 0"
| "fdiv (Finite x) NInf = Finite 0"
| "fdiv PInf (Finite y) = (if y < 0 then NInf else PInf)"
| "fdiv NInf (Finite y) = (if y < 0 then PInf else NInf)"
| "fdiv PInf PInf = NaN"
| "fdiv PInf NInf = NaN"
| "fdiv NInf PInf = NaN"
| "fdiv NInf NInf = NaN"
| "fdiv NaN y = NaN"
| "fdiv x NaN = NaN"

text \<open>\<open>x < y\<close> on floats; every comparison with NaN is false.\<close>

fun fless :: "float \<Rightarrow> float \<Rightarrow> bool" where
  "fless (Finite x) (Finite y) = (x < y)"
| "fless (Finite x) PInf = True"
| "fless NInf (Finite y) = True"
| "fless NInf PInf = True"
| "fless x y = False"

section \<open>Change tracking and Atom::set\_name\<close>

text \<open>
  Modelled from the spec: the ChangeTracker class (ChangeTracker.h is absent from the sources).
  One slot per entity class, each slot holding the sets of created and modified entity
  identities, the list of modification reasons and a count of deleted entities. The slot numbers
  are those of \<open>change_tracker_add_modified\<close> in molc.cpp (0 = Atom, ..., 6 =
  Proxy\_PBGroup).
\<close>

record Changes =
  created :: "nat set"
  modified :: "nat set"
  reasons :: "string list"
  num_deleted :: nat

type_synonym ChangeTracker = "nat \<Rightarrow> Changes"

definition ATOM_CLASS :: nat where "ATOM_CLASS = 0"

text \<open>
  Modelled from the spec: the reason tag \<open>ChangeTracker::REASON_NAME\<close> (ChangeTracker.h
  is absent from the sources) is the text "name".
\<close>

definition REASON_NAME :: string where "REASON_NAME = ''name''"

text \<open>
  Modelled from the spec: \<open>ChangeTracker::add_modified\<close> (ChangeTracker.h is absent from
  the sources) enters the entity in the modified set of its class and appends the reason to the
  reason list of the class, without deduplication.
\<close>

definition add_modified :: "nat \<Rightarrow> nat \<Rightarrow> string \<Rightarrow> ChangeTracker \<Rightarrow> ChangeTracker" where
  "add_modified cls ptr reason ct =
     ct(cls := (ct cls)\<lparr>modified := insert ptr (modified (ct cls)),
                        reasons := reasons (ct cls) @ [reason]\<rparr>)"

text \<open>
  An atom, with the fields of class Atom that the modelled operations read or write. Pointers
  are addresses (\<open>nat\<close>); \<open>atom_ptr\<close> is the atom's own address
  (\<open>this\<close>); \<open>atom_element\<close> is the atomic number of the element. The
  alternate-location map is keyed by the code and holds, per code, the occupancy and the
  bfactor, both \<open>float\<close>; the map is kept as an association list. The field \<open>_structure_category\<close>
  is kept apart from the record, as a map from atom addresses to categories (see the section on
  structure categories).
\<close>

datatype StructCat = Unassigned | Main | Ligand | Ions | Solvent

record Atom =
  atom_ptr :: nat
  atom_name :: string
  atom_element :: nat
  atom_residue :: nat
  atom_structure :: nat
  atom_neighbors :: "nat list"
  atom_alt_loc_map :: "(char \<times> float \<times> float) list"

text \<open>
  \<open>Atom::set_name\<close>: return at once when the name is the current one; otherwise
  report the modification and store the name.
\<close>

definition set_name :: "string \<Rightarrow> Atom \<times> ChangeTracker \<Rightarrow> Atom \<times> ChangeTracker" where
  "set_name name st =
     (case st of (a, ct) \<Rightarrow>
        if name = atom_name a then (a, ct)
        else (a\<lparr>atom_name := name\<rparr>, add_modified ATOM_CLASS (atom_ptr a) REASON_NAME ct))"

section \<open>AtomicStructure::session\_restore: the entry checks\<close>

text \<open>
  The Python objects handed to \<open>session_restore\<close>, as far as the entry checks look
  at them: \<open>PyList_Check\<close> and \<open>PyList_Size\<close>.
\<close>

datatype PyObject = PyList "PyObject list" | PyOther

fun PyList_Check :: "PyObject \<Rightarrow> bool" where
  "PyList_Check (PyList xs) = True"
| "PyList_Check PyOther = False"

fun PyList_Size :: "PyObject \<Rightarrow> int" where
  "PyList_Size (PyList xs) = int (length xs)"
| "PyList_Size PyOther = -1"

definition version_too_new_msg :: string where
  "version_too_new_msg =
     ''Don'' @ [CHR 0x27] @ ''t know how to restore new session data; update your version of ChimeraX''"

text \<open>
  \<open>session_restore\<close> up to the point where it starts to read the buffers. The
  constant \<open>CURRENT_SESSION_VERSION\<close> (declared in a header that is absent from the
  sources) and the rest of the function (\<open>body\<close>: the part that reads the buffers
  and rebuilds the graph) are parameters. The result is the exception thrown, if any, and the
  structure's state afterwards.
\<close>

definition session_restore ::
    "int \<Rightarrow> (int \<Rightarrow> PyObject \<Rightarrow> PyObject \<Rightarrow> PyObject \<Rightarrow> 's \<Rightarrow> error option \<times> 's) \<Rightarrow>
     int \<Rightarrow> PyObject \<Rightarrow> PyObject \<Rightarrow> PyObject \<Rightarrow> 's \<Rightarrow> error option \<times> 's" where
  "session_restore CURRENT_SESSION_VERSION body version ints floats misc s =
     (if version > CURRENT_SESSION_VERSION then
        (Some (Invalid_argument version_too_new_msg), s)
      else if \<not> PyList_Check ints \<or> PyList_Size ints \<noteq> 7 then
        (Some (Invalid_argument
           ''AtomicStructure::session_restore: first arg is not a 7-element list''), s)
      else if \<not> PyList_Check floats \<or> PyList_Size floats \<noteq> 7 then
        (Some (Invalid_argument
           ''AtomicStructure::session_restore: second arg is not a 7-element list''), s)
      else if \<not> PyList_Check misc \<or> PyList_Size misc \<noteq> 7 then
        (Some (Invalid_argument
           ''AtomicStructure::session_restore: third arg is not a 7-element list''), s)
      else body version ints floats misc s)"

section \<open>Proxy\_PBGroup: the group-type tags\<close>

text \<open>\<open>enum { GRP_NONE, GRP_NORMAL, GRP_PER_CS }\<close> of PBManager.h.\<close>

definition GRP_NONE :: int where "GRP_NONE = 0"
definition GRP_NORMAL :: int where "GRP_NORMAL = GRP_NONE + 1"
definition GRP_PER_CS :: int where "GRP_PER_CS = GRP_NORMAL + 1"

section \<open>Coordinate sets: \_coord\_set\_insert and new\_coord\_set\<close>

text \<open>
  A CoordSet object: its id and the number of coordinates it holds. The structure keeps a vector
  of pointers to heap objects; \<open>cs_heap\<close> gives the object at an address, and
  \<open>None\<close> once the object has been deleted. \<open>cs_next\<close> is the address
  the next \<open>new CoordSet\<close> returns.
\<close>

record CoordSet =
  cs_id :: int
  cs_coords_size :: nat

record CoordSets =
  coord_sets :: "nat list"
  cs_heap :: "nat \<Rightarrow> CoordSet option"
  cs_next :: nat

text \<open>
  The \<open>for\<close> loop of \<open>_coord_set_insert\<close>, from the iterator position
  that has the pointers \<open>ps\<close> still ahead: \<open>vector::insert(csi, cs)\<close>
  puts \<open>cs\<close> in front of the element at \<open>csi\<close> and keeps that element;
  \<open>delete *csi\<close> frees the object and leaves the pointer in the vector. Reading the
  id through a pointer to a deleted object is reported as \<open>Use_after_delete\<close>. When
  the loop runs off the end, the statement \<open>std::logic_error("...")\<close> builds an
  exception object without throwing it, and the function returns.
\<close>

fun coord_set_insert_loop ::
    "(nat \<Rightarrow> CoordSet option) \<Rightarrow> nat \<Rightarrow> int \<Rightarrow> nat list \<Rightarrow>
     error + (nat list \<times> (nat \<Rightarrow> CoordSet option))" where
  "coord_set_insert_loop heap cs index [] = Inr ([], heap)"
| "coord_set_insert_loop heap cs index (p # ps) =
     (case heap p of
        None \<Rightarrow> Inl Use_after_delete
      | Some c \<Rightarrow>
          if index < cs_id c then Inr (cs # p # ps, heap)
          else if index = cs_id c then Inr (cs # p # ps, heap(p := None))
          else (case coord_set_insert_loop heap cs index ps of
                  Inl e \<Rightarrow> Inl e
                | Inr (ps', heap') \<Rightarrow> Inr (p # ps', heap')))"

definition coord_set_insert ::
    "(nat \<Rightarrow> CoordSet option) \<Rightarrow> nat list \<Rightarrow> nat \<Rightarrow> int \<Rightarrow>
     error + (nat list \<times> (nat \<Rightarrow> CoordSet option))" where
  "coord_set_insert heap css cs index =
     (if css = [] then Inr (css @ [cs], heap)
      else (case heap (last css) of
              None \<Rightarrow> Inl Use_after_delete
            | Some c \<Rightarrow>
                if cs_id c < index then Inr (css @ [cs], heap)
                else coord_set_insert_loop heap cs index css))"

text \<open>\<open>new_coord_set(int index, int size)\<close>; the result is the new pointer and the state.\<close>

definition new_coord_set_size :: "int \<Rightarrow> nat \<Rightarrow> CoordSets \<Rightarrow> error + (nat \<times> CoordSets)" where
  "new_coord_set_size index sz st =
     (let cs = cs_next st;
          heap = (cs_heap st)(cs \<mapsto> \<lparr>cs_id = index, cs_coords_size = sz\<rparr>)
      in case coord_set_insert heap (coord_sets st) cs index of
           Inl e \<Rightarrow> Inl e
         | Inr (css', heap') \<Rightarrow>
             Inr (cs, \<lparr>coord_sets = css', cs_heap = heap', cs_next = Suc cs\<rparr>))"

text \<open>\<open>new_coord_set(int index)\<close>\<close>

definition new_coord_set_index :: "int \<Rightarrow> CoordSets \<Rightarrow> error + (nat \<times> CoordSets)" where
  "new_coord_set_index index st =
     (if coord_sets st \<noteq> [] then
        (case cs_heap st (last (coord_sets st)) of
           None \<Rightarrow> Inl Use_after_delete
         | Some c \<Rightarrow> new_coord_set_size index (cs_coords_size c) st)
      else new_coord_set_size index 0 st)"

text \<open>\<open>new_coord_set()\<close>\<close>

definition new_coord_set :: "CoordSets \<Rightarrow> error + (nat \<times> CoordSets)" where
  "new_coord_set st =
     (if coord_sets st = [] then new_coord_set_index 0 st
      else (case cs_heap st (last (coord_sets st)) of
              None \<Rightarrow> Inl Use_after_delete
            | Some c \<Rightarrow> new_coord_set_index (cs_id c) st))"

text \<open>The ids held by the vector's entries that still point to live objects.\<close>

definition live_ids :: "CoordSets \<Rightarrow> int list" where
  "live_ids st = map cs_id (List.map_filter (cs_heap st) (coord_sets st))"

text \<open>
  Both pointers are to live objects, and the id of the first is below the id of the second.
\<close>

definition id_before :: "(nat \<Rightarrow> CoordSet option) \<Rightarrow> nat \<Rightarrow> nat \<Rightarrow> bool" where
  "id_before heap p q = (case (heap p, heap q) of (Some c, Some d) \<Rightarrow> cs_id c < cs_id d | _ \<Rightarrow> False)"

text \<open>A structure with coordinate sets 0 and 1, at addresses 10 and 11.\<close>

definition two_coord_sets :: CoordSets where
  "two_coord_sets =
     \<lparr>coord_sets = [10, 11],
      cs_heap = [10 \<mapsto> \<lparr>cs_id = 0, cs_coords_size = 5\<rparr>,
                 11 \<mapsto> \<lparr>cs_id = 1, cs_coords_size = 5\<rparr>],
      cs_next = 12\<rparr>"

section \<open>The structure graph: atoms, residues, chains and deletion\<close>

text \<open>
  Residues and chains, with the fields the modelled code reads or writes. A chain's residue
  slots are nullable (\<open>None\<close> is \<open>nullptr\<close>). \<open>Memory\<close>
  gives the object behind each pointer. A structure holds the vectors of pointers to what it
  owns; \<open>atoms\<close> and \<open>bonds\<close> are the nodes and edges of the Graph base
  class.
\<close>

record Residue =
  res_name :: string
  res_atoms :: "nat list"
  res_chain :: "nat option"

record Chain =
  chain_residues :: "nat option list"

record Memory =
  atom_obj :: "nat \<Rightarrow> Atom"
  residue_obj :: "nat \<Rightarrow> Residue"
  chain_obj :: "nat \<Rightarrow> Chain"

record AtomicStructure =
  this_ptr :: nat
  atoms :: "nat list"
  bonds :: "(nat \<times> nat) list"
  residues :: "nat list"
  chains :: "nat list option"

text \<open>
  Modelled from the spec: \<open>Residue::remove_atom\<close> (Residue.cpp is absent from the
  sources) drops the atom from the residue's atom list.
\<close>

definition remove_atom :: "nat \<Rightarrow> nat \<Rightarrow> Memory \<Rightarrow> Memory" where
  "remove_atom r a mem =
     mem\<lparr>residue_obj := (residue_obj mem)
            (r := (residue_obj mem r)\<lparr>res_atoms := removeAll a (res_atoms (residue_obj mem r))\<rparr>)\<rparr>"

text \<open>
  Modelled from the spec: \<open>Chain::remove_residue\<close> (Chain.cpp is absent from the
  sources) unlinks the residue from its chain: its slot becomes null.
\<close>

definition remove_residue :: "nat \<Rightarrow> nat \<Rightarrow> Memory \<Rightarrow> Memory" where
  "remove_residue ch r mem =
     mem\<lparr>chain_obj := (chain_obj mem)
            (ch := \<lparr>chain_residues =
                      map (\<lambda>slot. if slot = Some r then None else slot)
                          (chain_residues (chain_obj mem ch))\<rparr>)\<rparr>"

text \<open>
  Modelled from the spec: \<open>Graph::delete_nodes\<close> (Graph.tcc is absent from the
  sources) removes the given atoms and every bond that has one of them as an end from the graph,
  and the atoms from the neighbor lists of the atoms that stay.
\<close>

definition delete_nodes :: "nat list \<Rightarrow> Memory \<times> AtomicStructure \<Rightarrow> Memory \<times> AtomicStructure" where
  "delete_nodes dels st =
     (case st of (mem, s) \<Rightarrow>
        (mem\<lparr>atom_obj := (\<lambda>p. (atom_obj mem p)
                \<lparr>atom_neighbors := filter (\<lambda>n. n \<notin> set dels) (atom_neighbors (atom_obj mem p))\<rparr>)\<rparr>,
         s\<lparr>atoms := filter (\<lambda>p. p \<notin> set dels) (atoms s),
           bonds := filter (\<lambda>b. fst b \<notin> set dels \<and> snd b \<notin> set dels) (bonds s)\<rparr>))"

text \<open>
  Modelled from the spec: \<open>_delete_atom\<close> (absent from the sources) removes one atom
  from its residue and, with its bonds, from the graph.
\<close>

definition delete_atom_internal :: "nat \<Rightarrow> Memory \<times> AtomicStructure \<Rightarrow> Memory \<times> AtomicStructure" where
  "delete_atom_internal a st =
     (case st of (mem, s) \<Rightarrow>
        delete_nodes [a] (remove_atom (atom_residue (atom_obj mem a)) a mem, s))"

text \<open>
  \<open>_delete_residue(r, ri)\<close>: unlink from the chain if there is one, delete the
  residue's atoms, erase the residue from the residue vector.
\<close>

definition delete_residue_internal :: "nat \<Rightarrow> Memory \<times> AtomicStructure \<Rightarrow> Memory \<times> AtomicStructure" where
  "delete_residue_internal r st =
     (case st of (mem, s) \<Rightarrow>
        let mem1 = (case res_chain (residue_obj mem r) of
                      None \<Rightarrow> mem
                    | Some ch \<Rightarrow> remove_residue ch r mem);
            (mem2, s2) = fold delete_atom_internal (res_atoms (residue_obj mem1 r)) (mem1, s)
        in (mem2, s2\<lparr>residues := remove1 r (residues s2)\<rparr>))"

text \<open>
  The deleting operations return the messages given to the logger, the memory, and the
  structure: \<open>None\<close> once \<open>delete this\<close> has run.
  \<open>Residue::str\<close> is a parameter (\<open>str\<close>, from the residue's address to
  its text).
\<close>

definition foreign_atom_msg :: "(nat \<Rightarrow> string) \<Rightarrow> Memory \<Rightarrow> nat \<Rightarrow> string" where
  "foreign_atom_msg str mem a =
     ''Atom '' @ str (atom_residue (atom_obj mem a)) @ '' '' @ atom_name (atom_obj mem a) @
     '' does not belong to the structure that it'' @ [CHR 0x27] @ ''s being deleted from.''"

definition foreign_residue_msg :: "(nat \<Rightarrow> string) \<Rightarrow> nat \<Rightarrow> string" where
  "foreign_residue_msg str r =
     ''Residue '' @ str r @
     '' does not belong to the structure that it'' @ [CHR 0x27] @ ''s being deleted from.''"

definition delete_atom ::
    "(nat \<Rightarrow> string) \<Rightarrow> Memory \<Rightarrow> AtomicStructure \<Rightarrow> nat \<Rightarrow>
     string list \<times> Memory \<times> AtomicStructure option" where
  "delete_atom str mem s a =
     (if atom_structure (atom_obj mem a) \<noteq> this_ptr s then
        ([foreign_atom_msg str mem a], mem, Some s)
      else if length (atoms s) = 1 then ([], mem, None)
      else
        let r = atom_residue (atom_obj mem a) in
        if length (res_atoms (residue_obj mem r)) = 1 then
          (case delete_residue_internal r (mem, s) of (mem', s') \<Rightarrow> ([], mem', Some s'))
        else
          (case delete_atom_internal a (mem, s) of (mem', s') \<Rightarrow> ([], mem', Some s')))"

text \<open>
  \<open>delete_atoms\<close>: \<open>std::set<Atom*>\<close> and \<open>std::map<Residue*,
  ...>\<close> are walked in address order, without duplicates.
\<close>

definition delete_atoms ::
    "Memory \<Rightarrow> AtomicStructure \<Rightarrow> nat list \<Rightarrow> Memory \<times> AtomicStructure option" where
  "delete_atoms mem s del_atoms =
     (let del_atoms_set = sort (remdups del_atoms) in
      if length del_atoms_set = length (atoms s) then (mem, None)
      else
        let rs = sort (remdups (map (\<lambda>a. atom_residue (atom_obj mem a)) del_atoms_set));
            dels = (\<lambda>r. filter (\<lambda>a. atom_residue (atom_obj mem a) = r) del_atoms_set);
            res_removals = filter (\<lambda>r. length (dels r) = length (res_atoms (residue_obj mem r))) rs;
            mem1 = fold (\<lambda>r m. if r \<in> set res_removals then m
                                else fold (remove_atom r) (dels r) m) rs mem;
            s1 = (if res_removals \<noteq> []
                  then s\<lparr>residues := filter (\<lambda>r. r \<notin> set res_removals) (residues s)\<rparr>
                  else s)
        in (case delete_nodes del_atoms_set (mem1, s1) of (mem', s') \<Rightarrow> (mem', Some s')))"

definition delete_residue ::
    "(nat \<Rightarrow> string) \<Rightarrow> Memory \<Rightarrow> AtomicStructure \<Rightarrow> nat \<Rightarrow>
     string list \<times> Memory \<times> AtomicStructure option" where
  "delete_residue str mem s r =
     (if r \<notin> set (residues s) then ([foreign_residue_msg str r], mem, Some s)
      else if length (residues s) = 1 then ([], mem, None)
      else (case delete_residue_internal r (mem, s) of (mem', s') \<Rightarrow> ([], mem', Some s')))"

text \<open>
  A small world: structure 1 owns residue 20 (atom 30) and residue 21 (atoms 31 and 32);
  structure 2 owns residue 25 with atom 35.
\<close>

definition example_memory :: Memory where
  "example_memory =
     \<lparr>atom_obj = (\<lambda>p. \<lparr>atom_ptr = p, atom_name = ''O'', atom_element = 8,
                       atom_residue = (if p = 30 then 20 else if p = 35 then 25 else 21),
                       atom_structure = (if p = 35 then 2 else 1),
                       atom_neighbors = [], atom_alt_loc_map = []\<rparr>),
      residue_obj = (\<lambda>r. \<lparr>res_name = ''HOH'',
                          res_atoms = (if r = 20 then [30] else if r = 25 then [35] else [31, 32]),
                          res_chain = None\<rparr>),
      chain_obj = (\<lambda>c. \<lparr>chain_residues = []\<rparr>)\<rparr>"

definition example_structure :: AtomicStructure where
  "example_structure =
     \<lparr>this_ptr = 1, atoms = [30, 31, 32], bonds = [], residues = [20, 21], chains = None\<rparr>"

definition single_atom_structure :: AtomicStructure where
  "single_atom_structure =
     \<lparr>this_ptr = 2, atoms = [35], bonds = [], residues = [25], chains = None\<rparr>"

definition example_str :: "nat \<Rightarrow> string" where
  "example_str r = ''HOH''"

definition empty_tracker :: ChangeTracker where
  "empty_tracker = (\<lambda>cls. \<lparr>created = {}, modified = {}, reasons = [], num_deleted = 0\<rparr>)"

definition seven :: "PyObject list" where
  "seven = replicate 7 (PyList [])"

definition no_body :: "int \<Rightarrow> PyObject \<Rightarrow> PyObject \<Rightarrow> PyObject \<Rightarrow> nat \<Rightarrow> error option \<times> nat" where
  "no_body version ints floats misc s = (None, Suc s)"

section \<open>Pseudobond groups behind the proxy\<close>

text \<open>
  The pseudobond sets of the two concrete groups: one set for a StructurePBGroup, one set per
  CoordSet address for a CS\_PBGroup (\<open>std::unordered_map\<close>, \<open>None\<close> for
  a key that is absent). The proxy holds the tag and the object made by \<open>init\<close>.
  \<open>pb_next\<close> is the address the next \<open>new Pseudobond\<close> returns,
  \<open>pb_atoms\<close> the end atoms of the pseudobonds made so far.
\<close>

datatype proxied =
    Proxied_StructurePBGroup "nat set"
  | Proxied_CS_PBGroup "nat \<Rightarrow> nat set option"

record Proxy_PBGroup =
  group_type :: int
  proxied :: proxied
  pb_next :: nat
  pb_atoms :: "nat \<Rightarrow> (nat \<times> nat) option"

text \<open>\<open>Proxy_PBGroup::init\<close>, for a group made when the next free address is \<open>n\<close>.\<close>

definition init :: "int \<Rightarrow> nat \<Rightarrow> Proxy_PBGroup" where
  "init grp_type n =
     \<lparr>group_type = grp_type,
      proxied = (if grp_type = GRP_NORMAL then Proxied_StructurePBGroup {}
                 else Proxied_CS_PBGroup (\<lambda>cs. None)),
      pb_next = n, pb_atoms = (\<lambda>pb. None)\<rparr>"

text \<open>
  Modelled from the spec: \<open>StructurePBGroup::new_pseudobond(a1, a2)\<close> (PBGroup.cpp
  is absent from the sources) makes a pseudobond and adds it to the group's single set.
\<close>

definition StructurePBGroup_new_pseudobond ::
    "nat \<Rightarrow> nat \<Rightarrow> nat set \<Rightarrow> Proxy_PBGroup \<Rightarrow> nat \<times> Proxy_PBGroup" where
  "StructurePBGroup_new_pseudobond a1 a2 pbonds g =
     (let pb = pb_next g in
      (pb, g\<lparr>proxied := Proxied_StructurePBGroup (insert pb pbonds),
              pb_next := Suc pb, pb_atoms := (pb_atoms g)(pb \<mapsto> (a1, a2))\<rparr>))"

text \<open>
  Modelled from the spec: \<open>CS_PBGroup::new_pseudobond(a1, a2, cs)\<close> (PBGroup.cpp is
  absent from the sources) makes a pseudobond scoped to the CoordSet supplied: it is added to
  the set stored under \<open>cs\<close>.
\<close>

definition CS_PBGroup_new_pseudobond_cs ::
    "nat \<Rightarrow> nat \<Rightarrow> nat \<Rightarrow> (nat \<Rightarrow> nat set option) \<Rightarrow> Proxy_PBGroup \<Rightarrow> nat \<times> Proxy_PBGroup" where
  "CS_PBGroup_new_pseudobond_cs a1 a2 cs pbonds g =
     (let pb = pb_next g;
          old = (case pbonds cs of None \<Rightarrow> {} | Some pbs \<Rightarrow> pbs)
      in (pb, g\<lparr>proxied := Proxied_CS_PBGroup (pbonds(cs \<mapsto> insert pb old)),
                 pb_next := Suc pb, pb_atoms := (pb_atoms g)(pb \<mapsto> (a1, a2))\<rparr>))"

text \<open>
  Modelled from the spec: \<open>CS_PBGroup::new_pseudobond(a1, a2)\<close> (PBGroup.cpp is
  absent from the sources) scopes the pseudobond to the CoordSet that is active at creation time
  (\<open>active\<close>, the structure's active coordinate set).
\<close>

definition CS_PBGroup_new_pseudobond ::
    "nat \<Rightarrow> nat \<Rightarrow> nat \<Rightarrow> (nat \<Rightarrow> nat set option) \<Rightarrow> Proxy_PBGroup \<Rightarrow> nat \<times> Proxy_PBGroup" where
  "CS_PBGroup_new_pseudobond a1 a2 active pbonds g =
     CS_PBGroup_new_pseudobond_cs a1 a2 active pbonds g"

text \<open>
  \<open>CS_PBGroup::pseudobonds(const CoordSet* cs)\<close> is \<open>return
  _pbonds[cs]\<close>: \<open>operator[]\<close> enters an empty set for a key that is absent.
\<close>

definition CS_PBGroup_pseudobonds_cs ::
    "nat \<Rightarrow> (nat \<Rightarrow> nat set option) \<Rightarrow> nat set \<times> (nat \<Rightarrow> nat set option)" where
  "CS_PBGroup_pseudobonds_cs cs pbonds =
     (case pbonds cs of
        None \<Rightarrow> ({}, pbonds(cs \<mapsto> {}))
      | Some pbs \<Rightarrow> (pbs, pbonds))"

text \<open>
  Modelled from the spec: \<open>CS_PBGroup::pseudobonds()\<close> (PBGroup.cpp is absent from
  the sources) returns the subset of the structure's active coordinate set.
\<close>

definition CS_PBGroup_pseudobonds ::
    "nat \<Rightarrow> (nat \<Rightarrow> nat set option) \<Rightarrow> nat set \<times> (nat \<Rightarrow> nat set option)" where
  "CS_PBGroup_pseudobonds active pbonds = CS_PBGroup_pseudobonds_cs active pbonds"

text \<open>
  The proxy's members, from PBGroup.h. The \<open>static_cast\<close> of \<open>_proxied\<close>
  to a class other than the one \<open>init\<close> made is reported as
  \<open>Invalid_argument\<close> with an empty text; it cannot happen for a proxy made by
  \<open>init\<close> with these members, which branch exclusively.
\<close>

definition not_per_cs_msg :: string where
  "not_per_cs_msg = ''Not a per-coordset pseudobond group''"

definition Proxy_new_pseudobond ::
    "nat \<Rightarrow> nat \<Rightarrow> nat \<Rightarrow> Proxy_PBGroup \<Rightarrow> error + (nat \<times> Proxy_PBGroup)" where
  "Proxy_new_pseudobond a1 a2 active g =
     (if group_type g = GRP_NORMAL then
        (case proxied g of
           Proxied_StructurePBGroup pbonds \<Rightarrow> Inr (StructurePBGroup_new_pseudobond a1 a2 pbonds g)
         | Proxied_CS_PBGroup pbonds \<Rightarrow> Inl (Invalid_argument []))
      else
        (case proxied g of
           Proxied_CS_PBGroup pbonds \<Rightarrow> Inr (CS_PBGroup_new_pseudobond a1 a2 active pbonds g)
         | Proxied_StructurePBGroup pbonds \<Rightarrow> Inl (Invalid_argument [])))"

definition Proxy_new_pseudobond_cs ::
    "nat \<Rightarrow> nat \<Rightarrow> nat \<Rightarrow> Proxy_PBGroup \<Rightarrow> error + (nat \<times> Proxy_PBGroup)" where
  "Proxy_new_pseudobond_cs a1 a2 cs g =
     (if group_type g = GRP_NORMAL then Inl (Invalid_argument not_per_cs_msg)
      else
        (case proxied g of
           Proxied_CS_PBGroup pbonds \<Rightarrow> Inr (CS_PBGroup_new_pseudobond_cs a1 a2 cs pbonds g)
         | Proxied_StructurePBGroup pbonds \<Rightarrow> Inl (Invalid_argument [])))"

definition Proxy_pseudobonds :: "nat \<Rightarrow> Proxy_PBGroup \<Rightarrow> error + (nat set \<times> Proxy_PBGroup)" where
  "Proxy_pseudobonds active g =
     (if group_type g = GRP_NORMAL then
        (case proxied g of
           Proxied_StructurePBGroup pbonds \<Rightarrow> Inr (pbonds, g)
         | Proxied_CS_PBGroup pbonds \<Rightarrow> Inl (Invalid_argument []))
      else
        (case proxied g of
           Proxied_CS_PBGroup pbonds \<Rightarrow>
             (case CS_PBGroup_pseudobonds active pbonds of
                (pbs, pbonds') \<Rightarrow> Inr (pbs, g\<lparr>proxied := Proxied_CS_PBGroup pbonds'\<rparr>))
         | Proxied_StructurePBGroup pbonds \<Rightarrow> Inl (Invalid_argument [])))"

definition Proxy_pseudobonds_cs :: "nat \<Rightarrow> Proxy_PBGroup \<Rightarrow> error + (nat set \<times> Proxy_PBGroup)" where
  "Proxy_pseudobonds_cs cs g =
     (if group_type g = GRP_NORMAL then Inl (Invalid_argument not_per_cs_msg)
      else
        (case proxied g of
           Proxied_CS_PBGroup pbonds \<Rightarrow>
             (case CS_PBGroup_pseudobonds_cs cs pbonds of
                (pbs, pbonds') \<Rightarrow> Inr (pbs, g\<lparr>proxied := Proxied_CS_PBGroup pbonds'\<rparr>))
         | Proxied_StructurePBGroup pbonds \<Rightarrow> Inl (Invalid_argument [])))"

text \<open>
  The state of a proxy that the members keep: the object behind the proxy is of the class the
  tag names, and every stored pseudobond was made before (its address is below
  \<open>pb_next\<close>).
\<close>

fun stored_pbs :: "proxied \<Rightarrow> nat set" where
  "stored_pbs (Proxied_StructurePBGroup pbonds) = pbonds"
| "stored_pbs (Proxied_CS_PBGroup pbonds) = \<Union> (ran pbonds)"

fun tag_matches :: "int \<Rightarrow> proxied \<Rightarrow> bool" where
  "tag_matches gt (Proxied_StructurePBGroup pbonds) = (gt = GRP_NORMAL)"
| "tag_matches gt (Proxied_CS_PBGroup pbonds) = (gt \<noteq> GRP_NORMAL)"

definition proxy_ok :: "Proxy_PBGroup \<Rightarrow> bool" where
  "proxy_ok g = (tag_matches (group_type g) (proxied g) \<and> (\<forall>pb \<in> stored_pbs (proxied g). pb < pb_next g))"

text \<open>The pseudobonds a query returns, and the group after a creation or a query.\<close>

definition returned :: "error + ('a \<times> Proxy_PBGroup) \<Rightarrow> 'a option" where
  "returned res = (case res of Inl e \<Rightarrow> None | Inr (x, g) \<Rightarrow> Some x)"

definition group_after :: "error + ('a \<times> Proxy_PBGroup) \<Rightarrow> Proxy_PBGroup option" where
  "group_after res = (case res of Inl e \<Rightarrow> None | Inr (x, g) \<Rightarrow> Some g)"

section \<open>Proxy\_PBGroup: the member function that runs\<close>

text \<open>
  The classes of PBGroup.h in which the members the proxy forwards to are defined.
  \<open>GraphicsContainer\<close> is a base of \<open>Group\<close>; its header (Graph.h) is
  absent from the sources, and neither \<open>StructurePBGroup\<close> nor
  \<open>CS_PBGroup\<close> declares one of its \<open>gc\<close> members.
\<close>

datatype pbgroup_class =
    GraphicsContainer_class | Group_class | StructurePBGroupBase_class
  | StructurePBGroup_class | CS_PBGroup_class

text \<open>
  The members of the proxy that forward to the proxied object under both tags. The two members
  with a \<open>CoordSet\<close> argument forward under the per-coordset tag only and throw
  otherwise; they are \<open>Proxy_new_pseudobond_cs\<close> and
  \<open>Proxy_pseudobonds_cs\<close> above.
\<close>

datatype proxy_method =
    M_category | M_check_destroyed_atoms | M_clear
  | M_get_default_color | M_get_default_halfbond
  | M_new_pseudobond | M_pseudobonds
  | M_session_num_ints | M_session_num_floats | M_session_restore | M_session_save
  | M_set_default_color | M_set_default_halfbond | M_structure
  | M_gc_clear | M_get_gc_color | M_get_gc_select | M_get_gc_shape
  | M_set_gc_color | M_set_gc_select | M_set_gc_shape

text \<open>The class of the object behind the proxy, as \<open>init\<close> made it.\<close>

fun dynamic_class :: "proxied \<Rightarrow> pbgroup_class" where
  "dynamic_class (Proxied_StructurePBGroup pbonds) = StructurePBGroup_class"
| "dynamic_class (Proxied_CS_PBGroup pbonds) = CS_PBGroup_class"

text \<open>
  The class whose function body runs for the call \<open>static_cast<C*>(_proxied)->f()\<close>,
  from the class \<open>C\<close> of the cast and the class of the object.
  \<^item> \<open>clear\<close>, \<open>check_destroyed_atoms\<close>,
    \<open>new_pseudobond(a1, a2)\<close> and \<open>pseudobonds()\<close> are pure virtual
    in \<open>Group\<close>, \<open>session_restore\<close> and \<open>session_save\<close>
    are virtual, and each of the two classes defines them: the call goes through the table of
    the object, so the body of the object's own class runs, whatever the cast.
  \<^item> \<open>session_num_ints()\<close> and \<open>session_num_floats()\<close> are
    members of each of the two classes that are not virtual: the body of the class of the cast
    runs.
  \<^item> \<open>category\<close>, \<open>get_default_color\<close>,
    \<open>get_default_halfbond\<close>, \<open>set_default_color\<close> and
    \<open>set_default_halfbond\<close> are defined in \<open>Group\<close> and overridden
    by neither class; \<open>structure\<close> is defined in
    \<open>StructurePBGroupBase\<close>; the \<open>gc\<close> members are those of
    \<open>GraphicsContainer\<close>.
\<close>

fun member_body :: "proxy_method \<Rightarrow> pbgroup_class \<Rightarrow> pbgroup_class \<Rightarrow> pbgroup_class" where
  "member_body M_category cast_class object_class = Group_class"
| "member_body M_check_destroyed_atoms cast_class object_class = object_class"
| "member_body M_clear cast_class object_class = object_class"
| "member_body M_get_default_color cast_class object_class = Group_class"
| "member_body M_get_default_halfbond cast_class object_class = Group_class"
| "member_body M_new_pseudobond cast_class object_class = object_class"
| "member_body M_pseudobonds cast_class object_class = object_class"
| "member_body M_session_num_ints cast_class object_class = cast_class"
| "member_body M_session_num_floats cast_class object_class = cast_class"
| "member_body M_session_restore cast_class object_class = object_class"
| "member_body M_session_save cast_class object_class = object_class"
| "member_body M_set_default_color cast_class object_class = Group_class"
| "member_body M_set_default_halfbond cast_class object_class = Group_class"
| "member_body M_structure cast_class object_class = StructurePBGroupBase_class"
| "member_body M_gc_clear cast_class object_class = GraphicsContainer_class"
| "member_body M_get_gc_color cast_class object_class = GraphicsContainer_class"
| "member_body M_get_gc_select cast_class object_class = GraphicsContainer_class"
| "member_body M_get_gc_shape cast_class object_class = GraphicsContainer_class"
| "member_body M_set_gc_color cast_class object_class = GraphicsContainer_class"
| "member_body M_set_gc_select cast_class object_class = GraphicsContainer_class"
| "member_body M_set_gc_shape cast_class object_class = GraphicsContainer_class"

text \<open>
  One call on the proxied object: the class of the cast it is made through, and the class whose
  member body runs.
\<close>

definition call_through :: "pbgroup_class \<Rightarrow> proxy_method \<Rightarrow> Proxy_PBGroup \<Rightarrow> pbgroup_class \<times> pbgroup_class" where
  "call_through cast_class f g = (cast_class, member_body f cast_class (dynamic_class (proxied g)))"

text \<open>
  Members of the form \<open>if (_group_type == GRP_NORMAL) return
  static_cast<StructurePBGroup*>(_proxied)->f(); return
  static_cast<CS_PBGroup*>(_proxied)->f();\<close>
\<close>

definition dispatch_return :: "proxy_method \<Rightarrow> Proxy_PBGroup \<Rightarrow> (pbgroup_class \<times> pbgroup_class) list" where
  "dispatch_return f g =
     (if group_type g = GRP_NORMAL then [call_through StructurePBGroup_class f g]
      else [call_through CS_PBGroup_class f g])"

text \<open>
  Members of the form \<open>if (_group_type == GRP_NORMAL)
  static_cast<StructurePBGroup*>(_proxied)->f();
  static_cast<CS_PBGroup*>(_proxied)->f();\<close> where the first call does not leave the
  function: with the tag \<open>GRP_NORMAL\<close> a second call follows, through the other
  cast, on the same object.
\<close>

definition dispatch_fallthrough :: "proxy_method \<Rightarrow> Proxy_PBGroup \<Rightarrow> (pbgroup_class \<times> pbgroup_class) list" where
  "dispatch_fallthrough f g =
     (if group_type g = GRP_NORMAL then [call_through StructurePBGroup_class f g] else []) @
     [call_through CS_PBGroup_class f g]"

text \<open>The calls a member of the proxy makes on the proxied object, in order.\<close>

fun proxy_calls :: "proxy_method \<Rightarrow> Proxy_PBGroup \<Rightarrow> (pbgroup_class \<times> pbgroup_class) list" where
  "proxy_calls M_category g = dispatch_return M_category g"
| "proxy_calls M_check_destroyed_atoms g = dispatch_fallthrough M_check_destroyed_atoms g"
| "proxy_calls M_clear g = dispatch_fallthrough M_clear g"
| "proxy_calls M_get_default_color g = dispatch_return M_get_default_color g"
| "proxy_calls M_get_default_halfbond g = dispatch_return M_get_default_halfbond g"
| "proxy_calls M_new_pseudobond g = dispatch_return M_new_pseudobond g"
| "proxy_calls M_pseudobonds g = dispatch_return M_pseudobonds g"
| "proxy_calls M_session_num_ints g = dispatch_return M_session_num_ints g"
| "proxy_calls M_session_num_floats g = dispatch_return M_session_num_floats g"
| "proxy_calls M_session_restore g = dispatch_return M_session_restore g"
| "proxy_calls M_session_save g = dispatch_return M_session_save g"
| "proxy_calls M_set_default_color g = dispatch_fallthrough M_set_default_color g"
| "proxy_calls M_set_default_halfbond g = dispatch_fallthrough M_set_default_halfbond g"
| "proxy_calls M_structure g = dispatch_return M_structure g"
| "proxy_calls M_gc_clear g = dispatch_fallthrough M_gc_clear g"
| "proxy_calls M_get_gc_color g = dispatch_return M_get_gc_color g"
| "proxy_calls M_get_gc_select g = dispatch_return M_get_gc_select g"
| "proxy_calls M_get_gc_shape g = dispatch_return M_get_gc_shape g"
| "proxy_calls M_set_gc_color g = dispatch_fallthrough M_set_gc_color g"
| "proxy_calls M_set_gc_select g = dispatch_fallthrough M_set_gc_select g"
| "proxy_calls M_set_gc_shape g = dispatch_fallthrough M_set_gc_shape g"




section \<open>AtomicStructure::best\_alt\_locs\<close>

text \<open>
  The value of a \<open>char\<close> as the code compares it: \<open>char\<close> is signed on
  x86-64, so the bytes from 0x80 on are negative and come before the ASCII characters.
\<close>

definition char_value :: "char \<Rightarrow> int" where
  "char_value c = (if of_char c < (128 :: int) then of_char c else of_char c - 256)"

text \<open>
  Modelled from the spec: \<open>Atom::alt_locs\<close> (Atom.cpp is absent from the sources)
  returns the set of codes that key the atom's alternate-location map. A
  \<open>std::set<char>\<close> is kept as the list of its elements in increasing order of
  \<open>char\<close> values. \<open>has_alt_loc\<close> is from Atom.h.
\<close>

definition alt_locs :: "Atom \<Rightarrow> char list" where
  "alt_locs a = sort_key char_value (remdups (map fst (atom_alt_loc_map a)))"


text \<open>
  The three \<open>std::map\<close>s that collect, per code, the number of atoms counted
  (\<open>int\<close>) and the sums of their occupancies and bfactors (\<open>float\<close>); a
  key that is absent reads as 0.
\<close>

record AltLocStats =
  occurances :: "char \<Rightarrow> int"
  occupancies :: "char \<Rightarrow> float"
  bfactors :: "char \<Rightarrow> float"

definition no_stats :: AltLocStats where
  "no_stats = \<lparr>occurances = (\<lambda>al. 0), occupancies = (\<lambda>al. Finite 0), bfactors = (\<lambda>al. Finite 0)\<rparr>"

text \<open>
  The loop over \<open>alt_loc_set\<close> for one atom: it stops at the first code the atom
  lacks (\<open>check_neighbors = false; break\<close>), keeping what it has added for the codes
  before. The sums are accumulated with \<open>+=\<close> on \<open>float\<close>.
\<close>

fun collate_atom :: "Atom \<Rightarrow> char list \<Rightarrow> AltLocStats \<Rightarrow> bool \<times> AltLocStats" where
  "collate_atom a [] st = (True, st)"
| "collate_atom a (alt_loc # rest) st =
     (case map_of (atom_alt_loc_map a) alt_loc of
        None \<Rightarrow> (False, st)
      | Some (occupancy, bfactor) \<Rightarrow>
          collate_atom a rest
            (st\<lparr>occurances := (occurances st)(alt_loc := occurances st alt_loc + 1),
                occupancies := (occupancies st)(alt_loc := fadd (occupancies st alt_loc) occupancy),
                bfactors := (bfactors st)(alt_loc := fadd (bfactors st alt_loc) bfactor)\<rparr>))"

text \<open>The state of the walk over one group of residues.\<close>

record Walk =
  seen :: "nat set"
  todo :: "nat list"
  res_group :: "nat list"
  stats :: AltLocStats

text \<open>The loop over the neighbors of an atom of residue \<open>cr\<close>.\<close>

definition visit_neighbor :: "Memory \<Rightarrow> nat \<Rightarrow> char list \<Rightarrow> nat \<Rightarrow> Walk \<Rightarrow> Walk" where
  "visit_neighbor mem cr alt_loc_set nb w =
     (let nr = atom_residue (atom_obj mem nb) in
      if nr \<noteq> cr \<and> alt_locs (atom_obj mem nb) = alt_loc_set \<and> nr \<notin> seen w
      then w\<lparr>seen := insert nr (seen w), todo := todo w @ [nr], res_group := res_group w @ [nr]\<rparr>
      else w)"

text \<open>The body of the loop over the atoms of residue \<open>cr\<close>.\<close>

definition visit_atom :: "Memory \<Rightarrow> nat \<Rightarrow> char list \<Rightarrow> nat \<Rightarrow> Walk \<Rightarrow> Walk" where
  "visit_atom mem cr alt_loc_set a w =
     (case collate_atom (atom_obj mem a) alt_loc_set (stats w) of
        (check_neighbors, st) \<Rightarrow>
          if check_neighbors
          then fold (visit_neighbor mem cr alt_loc_set) (atom_neighbors (atom_obj mem a))
                 (w\<lparr>stats := st\<rparr>)
          else w\<lparr>stats := st\<rparr>)"

text \<open>
  \<open>while (!todo.empty())\<close>: take the last residue off \<open>todo\<close> and visit
  its atoms. The loop has no bound in the source; here it runs on fuel, and \<open>None\<close>
  is the result of a run that has not ended when the fuel is used up.
\<close>

fun walk_group :: "nat \<Rightarrow> Memory \<Rightarrow> char list \<Rightarrow> Walk \<Rightarrow> Walk option" where
  "walk_group 0 mem alt_loc_set w = None"
| "walk_group (Suc fuel) mem alt_loc_set w =
     (if todo w = [] then Some w
      else let cr = last (todo w) in
        walk_group fuel mem alt_loc_set
          (fold (visit_atom mem cr alt_loc_set) (res_atoms (residue_obj mem cr))
             (w\<lparr>todo := butlast (todo w)\<rparr>)))"

text \<open>
  One pass of the loop that decides on the best code, for the code \<open>al\<close>, with the
  best found so far. The means are \<open>float\<close> divisions of a sum by the count
  converted to \<open>float\<close>; \<open>occ > best_occupancies\<close> is
  \<open>best_occupancies < occ\<close>. The second \<open>else if\<close> of the bfactor test
  repeats the condition of its \<open>if\<close>, so its \<open>continue\<close> is never reached.
\<close>

definition choose_step :: "AltLocStats \<Rightarrow> char \<Rightarrow> char \<times> float \<times> float \<Rightarrow> char \<times> float \<times> float" where
  "choose_step st al best =
     (case best of (best_loc, best_occupancies, best_bfactors) \<Rightarrow>
        let is_best = (best_loc = CHR 0x00);
            occ = fdiv (occupancies st al) (int_to_float (occurances st al))
        in if \<not> is_best \<and> \<not> fless best_occupancies occ \<and> fless occ best_occupancies then best
           else
             let is_best1 = (is_best \<or> fless best_occupancies occ);
                 bf = fdiv (bfactors st al) (int_to_float (occurances st al))
             in if \<not> is_best1 \<and> \<not> fless bf best_bfactors \<and> fless bf best_bfactors then best
                else if is_best1 \<or> fless bf best_bfactors then (al, occ, bf)
                else best)"

text \<open>
  The deciding loop over \<open>alphabetic_alt_locs\<close>, the codes sorted by
  \<open>std::sort\<close> (the order of \<open>char\<close> values).
\<close>

definition choose_best :: "AltLocStats \<Rightarrow> char list \<Rightarrow> char" where
  "choose_best st alt_loc_set =
     fst (fold (choose_step st) (sort_key char_value alt_loc_set) (CHR 0x00, Finite 0, Finite 0))"

text \<open>
  The first non-empty \<open>alt_locs\<close> among the atoms of a residue (the loop assigns
  \<open>alt_loc_set\<close> and breaks when it is not empty), empty when there is none.
\<close>

fun first_alt_loc_set :: "Memory \<Rightarrow> nat list \<Rightarrow> char list" where
  "first_alt_loc_set mem [] = []"
| "first_alt_loc_set mem (a # rest) =
     (if alt_locs (atom_obj mem a) \<noteq> [] then alt_locs (atom_obj mem a)
      else first_alt_loc_set mem rest)"

text \<open>
  What the loop over the residues works out for one group: the residues of the group, the codes,
  the collected numbers and the code chosen.
\<close>

record AltLocGroup =
  group_residues :: "nat list"
  group_alt_locs :: "char list"
  group_stats :: AltLocStats
  group_best :: char

text \<open>
  The loop over \<open>_residues\<close>, with the set \<open>seen\<close>; the groups are
  listed in the order in which the loop finishes them.
\<close>

fun residue_loop ::
    "nat \<Rightarrow> Memory \<Rightarrow> nat list \<Rightarrow> nat set \<Rightarrow> AltLocGroup list option" where
  "residue_loop fuel mem [] sn = Some []"
| "residue_loop fuel mem (r # rest) sn =
     (if r \<in> sn then residue_loop fuel mem rest sn
      else
        let sn1 = insert r sn;
            alt_loc_set = first_alt_loc_set mem (res_atoms (residue_obj mem r))
        in if alt_loc_set = [] then residue_loop fuel mem rest sn1
           else
             (case walk_group fuel mem alt_loc_set
                     \<lparr>seen = sn1, todo = [r], res_group = [r], stats = no_stats\<rparr> of
                None \<Rightarrow> None
              | Some w \<Rightarrow>
                  (case residue_loop fuel mem rest (seen w) of
                     None \<Rightarrow> None
                   | Some groups \<Rightarrow>
                       Some (\<lparr>group_residues = res_group w, group_alt_locs = alt_loc_set,
                              group_stats = stats w,
                              group_best = choose_best (stats w) alt_loc_set\<rparr> # groups))))"

text \<open>
  \<open>best_alt_locs\<close>: nothing when every atom's alternate-location map is empty;
  otherwise each group's residues are entered in the result map with the group's code.
  \<open>best_loc_of\<close> reads the result map at one residue.
\<close>

definition alt_loc_groups :: "nat \<Rightarrow> Memory \<Rightarrow> AtomicStructure \<Rightarrow> AltLocGroup list option" where
  "alt_loc_groups fuel mem s =
     (if list_all (\<lambda>a. atom_alt_loc_map (atom_obj mem a) = []) (atoms s) then Some []
      else residue_loop fuel mem (residues s) {})"

definition note_group :: "AltLocGroup \<Rightarrow> (nat \<Rightarrow> char option) \<Rightarrow> (nat \<Rightarrow> char option)" where
  "note_group g best_locs = fold (\<lambda>r m. m(r \<mapsto> group_best g)) (group_residues g) best_locs"

definition best_alt_locs :: "nat \<Rightarrow> Memory \<Rightarrow> AtomicStructure \<Rightarrow> (nat \<Rightarrow> char option) option" where
  "best_alt_locs fuel mem s =
     (case alt_loc_groups fuel mem s of
        None \<Rightarrow> None
      | Some groups \<Rightarrow> Some (fold note_group groups Map.empty))"

definition best_loc_of :: "nat \<Rightarrow> Memory \<Rightarrow> AtomicStructure \<Rightarrow> nat \<Rightarrow> char option" where
  "best_loc_of fuel mem s r =
     (case best_alt_locs fuel mem s of None \<Rightarrow> None | Some best_locs \<Rightarrow> best_locs r)"





















definition one_residue_structure :: AtomicStructure where
  "one_residue_structure =
     \<lparr>this_ptr = 3, atoms = [50, 51], bonds = [], residues = [40], chains = None\<rparr>"



text \<open>
  The same residue with one atom that carries the codes A, B and C, the occupancy of B being
  NaN; and with one atom that carries the character 0 and A as codes.
\<close>

definition nan_memory :: Memory where
  "nan_memory =
     \<lparr>atom_obj = (\<lambda>p. \<lparr>atom_ptr = p, atom_name = ''CA'', atom_element = 6,
                       atom_residue = 40, atom_structure = 3, atom_neighbors = [],
                       atom_alt_loc_map =
                         (if p = 50 then [(CHR ''A'', Finite (1 / 2), Finite 30), (CHR ''B'', NaN, Finite 20),
                                          (CHR ''C'', Finite (1 / 4), Finite 10)]
                          else [])\<rparr>),
      residue_obj = (\<lambda>r. \<lparr>res_name = ''ALA'', res_atoms = (if r = 40 then [50, 51] else []),
                          res_chain = None\<rparr>),
      chain_obj = (\<lambda>c. \<lparr>chain_residues = []\<rparr>)\<rparr>"

definition null_code_memory :: Memory where
  "null_code_memory =
     \<lparr>atom_obj = (\<lambda>p. \<lparr>atom_ptr = p, atom_name = ''CA'', atom_element = 6,
                       atom_residue = 40, atom_structure = 3, atom_neighbors = [],
                       atom_alt_loc_map =
                         (if p = 50 then [(CHR 0x00, Finite (3 / 4), Finite 10), (CHR ''A'', Finite (1 / 4), Finite 10)]
                          else [])\<rparr>),
      residue_obj = (\<lambda>r. \<lparr>res_name = ''ALA'', res_atoms = (if r = 40 then [50, 51] else []),
                          res_chain = None\<rparr>),
      chain_obj = (\<lambda>c. \<lparr>chain_residues = []\<rparr>)\<rparr>"











section \<open>AtomicStructure::\_compute\_structure\_cats\<close>

text \<open>
  The category of every atom (the field \<open>_structure_category\<close>) together with the
  change tracker. \<open>Atom::_set_structure_category\<close> does nothing when the category is
  the one the atom has; otherwise it reports the modification and stores the category. The text
  of the tag \<open>REASON_STRUCTURE_CATEGORY\<close> is absent from the sources; no statement
  depends on it.
\<close>

type_synonym cat_state = "(nat \<Rightarrow> StructCat) \<times> ChangeTracker"

definition REASON_STRUCTURE_CATEGORY :: string where
  "REASON_STRUCTURE_CATEGORY = ''structure_category''"

definition set_structure_category :: "StructCat \<Rightarrow> nat \<Rightarrow> cat_state \<Rightarrow> cat_state" where
  "set_structure_category sc a st =
     (case st of (cats, ct) \<Rightarrow>
        if sc = cats a then st
        else (cats(a := sc), add_modified ATOM_CLASS a REASON_STRUCTURE_CATEGORY ct))"

text \<open>\<open>for (auto a: *grp) a->_set_structure_category(sc)\<close>\<close>

definition set_group_category :: "StructCat \<Rightarrow> nat list \<Rightarrow> cat_state \<Rightarrow> cat_state" where
  "set_group_category sc grp st = fold (set_structure_category sc) grp st"

text \<open>What the function reads of an atom through its pointers.\<close>

definition residue_of :: "Memory \<Rightarrow> nat \<Rightarrow> nat" where
  "residue_of mem a = atom_residue (atom_obj mem a)"

definition element_number :: "Memory \<Rightarrow> nat \<Rightarrow> nat" where
  "element_number mem a = atom_element (atom_obj mem a)"

definition residue_name :: "Memory \<Rightarrow> nat \<Rightarrow> string" where
  "residue_name mem a = res_name (residue_obj mem (residue_of mem a))"

definition residue_size :: "Memory \<Rightarrow> nat \<Rightarrow> nat" where
  "residue_size mem a = length (res_atoms (residue_obj mem (residue_of mem a)))"

text \<open>
  The bonded groups are the value of the local variable \<open>bonded\<close> after the call
  \<open>bonded_groups(&bonded, true)\<close>: a list of groups, each a list of atom addresses.
  The root of a group is its first atom (\<open>grp[0]\<close>; \<open>bonded_groups\<close>
  returns no empty group, and the null address stands for the root of an empty one).
  \<open>group_lookup\<close> and \<open>atom_to_root\<close> are the two maps built from the
  groups, a later entry for a key replacing an earlier one; a key that is absent reads as the
  empty group and as the null address.
\<close>

fun root_of :: "nat list \<Rightarrow> nat" where
  "root_of [] = 0"
| "root_of (a # rest) = a"

definition group_lookup :: "nat list list \<Rightarrow> nat \<Rightarrow> nat list" where
  "group_lookup bonded root_atom =
     (case filter (\<lambda>grp. root_of grp = root_atom) bonded of
        [] \<Rightarrow> []
      | g # gs \<Rightarrow> last (g # gs))"

definition atom_to_root :: "nat list list \<Rightarrow> nat \<Rightarrow> nat" where
  "atom_to_root bonded a =
     (case filter (\<lambda>grp. a \<in> set grp) bonded of
        [] \<Rightarrow> 0
      | g # gs \<Rightarrow> root_of (last (g # gs)))"

text \<open>
  A \<open>std::set\<close> of addresses is the list of its elements in increasing order;
  \<open>set_insert\<close> is \<open>insert\<close>, \<open>set_erase\<close> is
  \<open>erase\<close>.
\<close>

definition set_insert :: "nat \<Rightarrow> nat list \<Rightarrow> nat list" where
  "set_insert x xs = (if x \<in> set xs then xs else insort x xs)"

definition set_erase :: "nat \<Rightarrow> nat list \<Rightarrow> nat list" where
  "set_erase x xs = removeAll x xs"

text \<open>
  The test that sends a root to \<open>small_solvents\<close>. \<open>std_solvent_names\<close>
  (a static table of class Residue, absent from the sources) is a parameter.
\<close>

definition is_small_solvent :: "string set \<Rightarrow> Memory \<Rightarrow> nat list list \<Rightarrow> nat \<Rightarrow> bool" where
  "is_small_solvent std_solvent_names mem bonded root_atom =
     (let grp = group_lookup bonded root_atom in
      if length grp < 4 \<and> residue_name mem root_atom \<in> std_solvent_names then True
      else if length grp = 1 \<and> residue_size mem root_atom = 1
              \<and> element_number mem root_atom > 4 \<and> element_number mem root_atom < 9 then True
      else False)"

text \<open>The roots, in the order of the map \<open>group_lookup\<close>.\<close>

definition roots :: "nat list list \<Rightarrow> nat list" where
  "roots bonded = sort (remdups (map root_of bonded))"

definition small_solvents :: "string set \<Rightarrow> Memory \<Rightarrow> nat list list \<Rightarrow> nat list" where
  "small_solvents names mem bonded = filter (is_small_solvent names mem bonded) (roots bonded)"

definition initial_root_set :: "string set \<Rightarrow> Memory \<Rightarrow> nat list list \<Rightarrow> nat list" where
  "initial_root_set names mem bonded =
     filter (\<lambda>root_atom. \<not> is_small_solvent names mem bonded root_atom) (roots bonded)"

text \<open>
  The map \<open>solvents\<close>: under "small solvents" the small solvents, and under each
  residue name the roots of \<open>root_set\<close> whose group has at most 10 atoms and is the
  whole residue of the root.
\<close>

definition potential_solvents :: "Memory \<Rightarrow> nat list list \<Rightarrow> nat list \<Rightarrow> nat list" where
  "potential_solvents mem bonded root_set =
     filter (\<lambda>root_atom. \<not> length (group_lookup bonded root_atom) > 10 \<and>
                     \<not> length (group_lookup bonded root_atom) \<noteq> residue_size mem root_atom) root_set"

definition solvents :: "string set \<Rightarrow> Memory \<Rightarrow> nat list list \<Rightarrow> string \<Rightarrow> nat list" where
  "solvents names mem bonded sn =
     (if sn = ''small solvents'' then small_solvents names mem bonded else []) @
     filter (\<lambda>root_atom. residue_name mem root_atom = sn)
       (potential_solvents mem bonded (initial_root_set names mem bonded))"

definition solvent_keys :: "string set \<Rightarrow> Memory \<Rightarrow> nat list list \<Rightarrow> string list" where
  "solvent_keys names mem bonded =
     sort (remdups (''small solvents'' #
       map (residue_name mem) (potential_solvents mem bonded (initial_root_set names mem bonded))))"

text \<open>The loop that picks the best solvent name, walking the map in key order.\<close>

definition best_solvent_step :: "(string \<Rightarrow> nat list) \<Rightarrow> string \<Rightarrow> string \<times> nat \<Rightarrow> string \<times> nat" where
  "best_solvent_step solv sn best =
     (case best of (best_solvent_name, best_solvent_size) \<Rightarrow>
        if length (solv sn) < best_solvent_size then best
        else (sn, length (solv sn)))"

definition best_solvent_name :: "string set \<Rightarrow> Memory \<Rightarrow> nat list list \<Rightarrow> string" where
  "best_solvent_name names mem bonded =
     fst (fold (best_solvent_step (solvents names mem bonded)) (solvent_keys names mem bonded)
            ([], 10))"

text \<open>
  Determine and assign solvent: the groups of the small solvents, then those of the best solvent
  name, which leave \<open>root_set\<close>. The result is \<open>root_set\<close> and the
  categories.
\<close>

definition assign_solvent ::
    "string set \<Rightarrow> Memory \<Rightarrow> nat list list \<Rightarrow> cat_state \<Rightarrow> nat list \<times> cat_state" where
  "assign_solvent names mem bonded st =
     (let root_set = initial_root_set names mem bonded;
          st1 = fold (\<lambda>root_atom. set_group_category Solvent (group_lookup bonded root_atom))
                  (small_solvents names mem bonded) st;
          best = best_solvent_name names mem bonded
      in if best \<noteq> [] \<and> best \<noteq> ''small solvents'' then
           (fold set_erase (solvents names mem bonded best) root_set,
            fold (\<lambda>root_atom. set_group_category Solvent (group_lookup bonded root_atom))
              (solvents names mem bonded best) st1)
         else (root_set, st1))"

text \<open>
  Assign ions. \<open>Element::is_noble_gas\<close> (absent from the sources) is a parameter, on
  atomic numbers. The count of heavy atoms of a group stops at 5.
\<close>

fun count_heavys :: "Memory \<Rightarrow> nat \<Rightarrow> nat list \<Rightarrow> nat" where
  "count_heavys mem num_heavys [] = num_heavys"
| "count_heavys mem num_heavys (a # rest) =
     (if element_number mem a > 1 then
        (if Suc num_heavys > 4 then Suc num_heavys
         else count_heavys mem (Suc num_heavys) rest)
      else count_heavys mem num_heavys rest)"

definition initial_ions :: "(nat \<Rightarrow> bool) \<Rightarrow> Memory \<Rightarrow> nat list list \<Rightarrow> nat list \<Rightarrow> nat list" where
  "initial_ions is_noble_gas mem bonded root_set =
     filter (\<lambda>root_atom. length (group_lookup bonded root_atom) = 1 \<and>
                     element_number mem root_atom > 1 \<and> \<not> is_noble_gas (element_number mem root_atom))
       root_set"

definition add_segment :: "Memory \<Rightarrow> nat list list \<Rightarrow> nat \<Rightarrow> nat list \<Rightarrow> nat list" where
  "add_segment mem bonded rt ions =
     (if rt \<in> set ions then ions
      else if count_heavys mem 0 (group_lookup bonded rt) < 5 then set_insert rt ions
      else ions)"

definition expand_ion ::
    "Memory \<Rightarrow> nat list list \<Rightarrow> nat \<Rightarrow> nat list \<times> nat list \<Rightarrow> nat list \<times> nat list" where
  "expand_ion mem bonded root_atom st =
     (case st of (ions, checked_residues) \<Rightarrow>
        if length (group_lookup bonded root_atom) = residue_size mem root_atom then st
        else if residue_of mem root_atom \<in> set checked_residues then st
        else
          let seen_roots = fold (\<lambda>a. set_insert (atom_to_root bonded a))
                             (res_atoms (residue_obj mem (residue_of mem root_atom))) [root_atom]
          in (fold (add_segment mem bonded) seen_roots ions,
              set_insert (residue_of mem root_atom) checked_residues))"

definition all_ions :: "(nat \<Rightarrow> bool) \<Rightarrow> Memory \<Rightarrow> nat list list \<Rightarrow> nat list \<Rightarrow> nat list" where
  "all_ions is_noble_gas mem bonded root_set =
     (let ions = initial_ions is_noble_gas mem bonded root_set
      in fst (fold (expand_ion mem bonded) ions (ions, [])))"

definition assign_ions ::
    "(nat \<Rightarrow> bool) \<Rightarrow> Memory \<Rightarrow> nat list list \<Rightarrow> nat list \<times> cat_state \<Rightarrow> nat list \<times> cat_state" where
  "assign_ions is_noble_gas mem bonded rs =
     (case rs of (root_set, st) \<Rightarrow>
        let ions = all_ions is_noble_gas mem bonded root_set
        in (fold set_erase ions root_set,
            fold (\<lambda>root_atom. set_group_category Ions (group_lookup bonded root_atom)) ions st))"

text \<open>Assign ligand: the size of the longest group gives the cutoff.\<close>

definition longest_size :: "nat list list \<Rightarrow> nat list \<Rightarrow> nat" where
  "longest_size bonded root_set =
     (case fold (\<lambda>root_atom longest.
                   case longest of
                     None \<Rightarrow> Some (group_lookup bonded root_atom)
                   | Some l \<Rightarrow> if length (group_lookup bonded root_atom) > length l
                               then Some (group_lookup bonded root_atom) else longest)
             root_set None of
        None \<Rightarrow> 0
      | Some l \<Rightarrow> length l)"

definition is_ligand :: "Memory \<Rightarrow> nat list list \<Rightarrow> nat \<Rightarrow> nat \<Rightarrow> bool" where
  "is_ligand mem bonded ligand_cutoff root_atom =
     (let grp = group_lookup bonded root_atom in
      if length grp < ligand_cutoff then
        (let residues = remdups (map (residue_of mem) grp) in
         if length residues < 10 then
           (case res_chain (residue_obj mem (residue_of mem root_atom)) of
              None \<Rightarrow> True
            | Some ch \<Rightarrow> length (chain_residues (chain_obj mem ch)) < 10)
         else False)
      else False)"

definition assign_ligand ::
    "Memory \<Rightarrow> nat list list \<Rightarrow> nat list \<times> cat_state \<Rightarrow> nat list \<times> cat_state" where
  "assign_ligand mem bonded rs =
     (case rs of (root_set, st) \<Rightarrow>
        let ligand_cutoff = min (longest_size bonded root_set div 4) 250;
            ligands = filter (is_ligand mem bonded ligand_cutoff) root_set
        in (fold set_erase ligands root_set,
            fold (\<lambda>root_atom. set_group_category Ligand (group_lookup bonded root_atom)) ligands st))"

text \<open>
  The remainder is "main"; the residues of a main group that are in none of the chains of the
  group's residues are bound ligands, and all their atoms become Ligand.
\<close>

definition bound_residues :: "Memory \<Rightarrow> nat list \<Rightarrow> nat list" where
  "bound_residues mem grp =
     (let root_residues = sort (remdups (map (residue_of mem) grp));
          root_chains = sort (remdups (List.map_filter (\<lambda>r. res_chain (residue_obj mem r)) root_residues));
          seq_residues = sort (remdups (concat (map (\<lambda>ch. List.map_filter (\<lambda>slot. slot)
                                                        (chain_residues (chain_obj mem ch))) root_chains)))
      in if seq_residues = [] then []
         else filter (\<lambda>r. r \<notin> set seq_residues) root_residues)"

definition assign_main_root :: "Memory \<Rightarrow> nat list list \<Rightarrow> nat \<Rightarrow> cat_state \<Rightarrow> cat_state" where
  "assign_main_root mem bonded root_atom st =
     (let grp = group_lookup bonded root_atom;
          st1 = set_group_category Main grp st
      in fold (\<lambda>br. set_group_category Ligand (res_atoms (residue_obj mem br)))
           (bound_residues mem grp) st1)"

definition assign_main :: "Memory \<Rightarrow> nat list list \<Rightarrow> nat list \<Rightarrow> cat_state \<Rightarrow> cat_state" where
  "assign_main mem bonded root_set st = fold (assign_main_root mem bonded) root_set st"

text \<open>\<open>_compute_structure_cats\<close>, from the bonded groups on.\<close>

definition compute_structure_cats ::
    "string set \<Rightarrow> (nat \<Rightarrow> bool) \<Rightarrow> Memory \<Rightarrow> nat list list \<Rightarrow> cat_state \<Rightarrow> cat_state" where
  "compute_structure_cats names is_noble_gas mem bonded st =
     (case assign_ions is_noble_gas mem bonded (assign_solvent names mem bonded st) of
        (root_set, st2) \<Rightarrow>
          if root_set = [] then st2
          else (case assign_ligand mem bonded (root_set, st2) of
                  (root_set3, st3) \<Rightarrow> assign_main mem bonded root_set3 st3))"

text \<open>
  A chloride ion and a water: atom 1 is Cl (17) alone in residue 10 "CL"; atoms 2, 3, 4 are the
  O and the two H of residue 11 "HOH", bonded to each other. Atom 5 is an oxygen alone in
  residue 12 "O".
\<close>

definition noble_gas :: "nat \<Rightarrow> bool" where
  "noble_gas n = (n \<in> {2, 10, 18, 36, 54, 86, 118})"

definition water_names :: "string set" where
  "water_names = {''HOH''}"

definition chloride_memory :: Memory where
  "chloride_memory =
     \<lparr>atom_obj = (\<lambda>p. \<lparr>atom_ptr = p, atom_name = (if p = 1 then ''CL'' else if p = 2 \<or> p = 5 then ''O'' else ''H''),
                       atom_element = (if p = 1 then 17 else if p = 2 \<or> p = 5 then 8 else 1),
                       atom_residue = (if p = 1 then 10 else if p = 5 then 12 else 11),
                       atom_structure = 4,
                       atom_neighbors = (if p = 2 then [3, 4] else if p = 3 \<or> p = 4 then [2] else []),
                       atom_alt_loc_map = []\<rparr>),
      residue_obj = (\<lambda>r. \<lparr>res_name = (if r = 10 then ''CL'' else if r = 11 then ''HOH'' else ''O''),
                          res_atoms = (if r = 10 then [1] else if r = 11 then [2, 3, 4]
                                       else if r = 12 then [5] else []),
                          res_chain = None\<rparr>),
      chain_obj = (\<lambda>c. \<lparr>chain_residues = []\<rparr>)\<rparr>"

definition chloride_bonded :: "nat list list" where
  "chloride_bonded = [[1], [2, 3, 4], [5]]"

definition unassigned :: cat_state where
  "unassigned = (\<lambda>a. Unassigned, empty_tracker)"


text \<open>
  The bonded groups partition atoms: no atom is in two groups or twice in one, no group is
  empty, and the null address is not an atom.
\<close>

definition wf_bonded :: "nat list list \<Rightarrow> bool" where
  "wf_bonded bonded = (distinct (concat bonded) \<and> [] \<notin> set bonded \<and> 0 \<notin> set (concat bonded))"

text \<open>
  Atoms and residues agree: every atom of a group is in the atom list of its residue, and every
  atom in that list has the residue as its residue.
\<close>

definition wf_residues :: "Memory \<Rightarrow> nat list list \<Rightarrow> bool" where
  "wf_residues mem bonded =
     (\<forall>a \<in> set (concat bonded).
        a \<in> set (res_atoms (residue_obj mem (residue_of mem a))) \<and>
        (\<forall>b \<in> set (res_atoms (residue_obj mem (residue_of mem a))).
           residue_of mem b = residue_of mem a))"

text \<open>
  The roots that are left for the Main step, and the atoms that the step reclassifies as bound
  ligand: the atoms of the residues that \<open>bound_residues\<close> gives for a main group
  (the group has residues in chains, and the residue is in none of these chains).
\<close>

definition main_roots ::
    "string set \<Rightarrow> (nat \<Rightarrow> bool) \<Rightarrow> Memory \<Rightarrow> nat list list \<Rightarrow> cat_state \<Rightarrow> nat list" where
  "main_roots names is_noble_gas mem bonded st =
     (case assign_ions is_noble_gas mem bonded (assign_solvent names mem bonded st) of
        (root_set, st2) \<Rightarrow>
          if root_set = [] then []
          else fst (assign_ligand mem bonded (root_set, st2)))"

definition bound_ligand_atom ::
    "string set \<Rightarrow> (nat \<Rightarrow> bool) \<Rightarrow> Memory \<Rightarrow> nat list list \<Rightarrow> cat_state \<Rightarrow> nat \<Rightarrow> bool" where
  "bound_ligand_atom names is_noble_gas mem bonded st x =
     (\<exists>r \<in> set (main_roots names is_noble_gas mem bonded st).
        \<exists>br \<in> set (bound_residues mem (group_lookup bonded r)).
          x \<in> set (res_atoms (residue_obj mem br)))"

text \<open>
  The residues of the atoms of a group hold small solvents only: a bonded group that holds an
  atom of one of these residues is a group whose root the segregation loop sends to
  \<open>small_solvents\<close>.
\<close>

definition solvent_residues :: "string set \<Rightarrow> Memory \<Rightarrow> nat list list \<Rightarrow> nat list \<Rightarrow> bool" where
  "solvent_residues names mem bonded grp =
     (\<forall>a \<in> set grp. \<forall>b \<in> set (res_atoms (residue_obj mem (residue_of mem a))).
        \<forall>H \<in> set bonded. b \<in> set H \<longrightarrow> is_small_solvent names mem bonded (root_of H))"

text \<open>
  No root that the ion step can start from (a group of one atom that is not a small solvent)
  has an atom of the group \<open>G\<close> in its residue.
\<close>

definition ions_apart :: "string set \<Rightarrow> Memory \<Rightarrow> nat list list \<Rightarrow> nat list \<Rightarrow> bool" where
  "ions_apart names mem bonded G =
     (\<forall>i \<in> set (roots bonded).
        i \<noteq> root_of G \<longrightarrow> \<not> is_small_solvent names mem bonded i \<longrightarrow>
        length (group_lookup bonded i) = 1 \<longrightarrow>
        (\<forall>a \<in> set (res_atoms (residue_obj mem (residue_of mem i))). a \<notin> set G))"

text \<open>
  A water whose atoms are not bonded to each other: atoms 2, 3, 4 are the O and the two H of
  residue 11 "HOH", and each is a bonded group of its own.
\<close>

definition loose_water_memory :: Memory where
  "loose_water_memory =
     \<lparr>atom_obj = (\<lambda>p. \<lparr>atom_ptr = p, atom_name = (if p = 2 then ''O'' else ''H''),
                       atom_element = (if p = 2 then 8 else 1),
                       atom_residue = 11, atom_structure = 6, atom_neighbors = [],
                       atom_alt_loc_map = []\<rparr>),
      residue_obj = (\<lambda>r. \<lparr>res_name = ''HOH'', res_atoms = (if r = 11 then [2, 3, 4] else []),
                          res_chain = None\<rparr>),
      chain_obj = (\<lambda>c. \<lparr>chain_residues = []\<rparr>)\<rparr>"

definition loose_water_bonded :: "nat list list" where
  "loose_water_bonded = [[2], [3], [4]]"

text \<open>
  Modelled from the spec: the halogens (F, Cl, Br, I, ...), by atomic number;
  \<open>Element::is_halogen\<close> is absent from the sources.
\<close>

definition halogen :: "nat \<Rightarrow> bool" where
  "halogen n = (n \<in> {9, 17, 35, 53, 85, 117})"

text \<open>
  A water that shares its residue with an atom bonded into a chain: residue 11 "HOH" (in no
  chain) holds the water atoms 2, 3, 4 and the carbon 6; atom 6 is bonded to atom 7 of residue
  13 "ALA" (atoms 7, 8, 9), which is in chain 20.
\<close>

definition bound_water_memory :: Memory where
  "bound_water_memory =
     \<lparr>atom_obj = (\<lambda>p. \<lparr>atom_ptr = p,
                       atom_name = (if p = 2 then ''O'' else if p = 3 \<or> p = 4 then ''H'' else ''C''),
                       atom_element = (if p = 2 then 8 else if p = 3 \<or> p = 4 then 1 else 6),
                       atom_residue = (if p = 7 \<or> p = 8 \<or> p = 9 then 13 else 11),
                       atom_structure = 5,
                       atom_neighbors = (if p = 2 then [3, 4] else if p = 3 \<or> p = 4 then [2]
                                         else if p = 6 then [7] else if p = 7 then [6, 8]
                                         else if p = 8 then [7, 9] else if p = 9 then [8] else []),
                       atom_alt_loc_map = []\<rparr>),
      residue_obj = (\<lambda>r. if r = 11 then \<lparr>res_name = ''HOH'', res_atoms = [2, 3, 4, 6], res_chain = None\<rparr>
                         else \<lparr>res_name = ''ALA'', res_atoms = (if r = 13 then [7, 8, 9] else []),
                               res_chain = (if r = 13 then Some 20 else None)\<rparr>),
      chain_obj = (\<lambda>c. \<lparr>chain_residues = (if c = 20 then [Some 13] else [])\<rparr>)\<rparr>"

definition bound_water_bonded :: "nat list list" where
  "bound_water_bonded = [[2, 3, 4], [6, 7, 8, 9]]"

section \<open>AtomicStructure::bonded\_groups\<close>

text \<open>
  The map \<open>pb_connections\<close>, from the pseudobonds of the "missing structure" group
  (each a pair of end atoms): what is stored under atom \<open>a\<close>.
\<close>

definition pb_connections :: "(nat \<times> nat) list \<Rightarrow> nat \<Rightarrow> nat list" where
  "pb_connections pbs a =
     concat (map (\<lambda>pb. (if a = fst pb then [snd pb] else []) @
                        (if a = snd pb then [fst pb] else [])) pbs)"

text \<open>
  \<open>while (pending.size() > 0)\<close>: \<open>pending\<close> is a
  \<open>std::set\<close>, and \<open>*(pending.begin())\<close> is its least element. The loop
  has no bound in the source; here it runs on fuel, and \<open>None\<close> is the result of a
  run that has not ended when the fuel is used up.
\<close>

fun grow_group ::
    "nat \<Rightarrow> Memory \<Rightarrow> (nat \<Rightarrow> nat list) \<Rightarrow> nat list \<Rightarrow> nat set \<Rightarrow> nat list \<Rightarrow>
     (nat set \<times> nat list) option" where
  "grow_group 0 mem conn pending sn bonded = None"
| "grow_group (Suc fuel) mem conn [] sn bonded = Some (sn, bonded)"
| "grow_group (Suc fuel) mem conn (pa # rest) sn bonded =
     (if pa \<in> sn then grow_group fuel mem conn rest sn bonded
      else grow_group fuel mem conn
             (fold set_insert (atom_neighbors (atom_obj mem pa)) (fold set_insert (conn pa) rest))
             (insert pa sn) (bonded @ [pa]))"

fun group_loop ::
    "nat \<Rightarrow> Memory \<Rightarrow> (nat \<Rightarrow> nat list) \<Rightarrow> nat list \<Rightarrow> nat set \<Rightarrow> nat list list option" where
  "group_loop fuel mem conn [] sn = Some []"
| "group_loop fuel mem conn (a # rest) sn =
     (if a \<in> sn then group_loop fuel mem conn rest sn
      else (case grow_group fuel mem conn [a] sn [] of
              None \<Rightarrow> None
            | Some (sn', bonded) \<Rightarrow>
                (case group_loop fuel mem conn rest sn' of
                   None \<Rightarrow> None
                 | Some groups \<Rightarrow> Some (bonded # groups))))"

text \<open>
  \<open>missing\<close> is the pseudobond list of the structure's "missing structure" group,
  \<open>None\<close> when \<open>get_group\<close> returns \<open>nullptr\<close>.
\<close>

definition connections :: "(nat \<times> nat) list option \<Rightarrow> bool \<Rightarrow> nat \<Rightarrow> nat list" where
  "connections missing consider_missing_structure =
     (if consider_missing_structure
      then (case missing of None \<Rightarrow> (\<lambda>a. []) | Some pbs \<Rightarrow> pb_connections pbs)
      else (\<lambda>a. []))"

definition bonded_groups ::
    "nat \<Rightarrow> Memory \<Rightarrow> AtomicStructure \<Rightarrow> (nat \<times> nat) list option \<Rightarrow> bool \<Rightarrow> nat list list option" where
  "bonded_groups fuel mem s missing consider_missing_structure =
     group_loop fuel mem (connections missing consider_missing_structure) (atoms s) {}"

text \<open>
  What the two loop levels of \<open>bonded_groups\<close> need to end and to return a partition: the null
  address is no neighbor and no end of a pseudobond; the links of the atoms of \<open>U\<close>
  stay in \<open>U\<close>; and the fuel exceeds the number of atoms plus the number of their
  links.
\<close>

definition no_null_links :: "Memory \<Rightarrow> (nat \<Rightarrow> nat list) \<Rightarrow> bool" where
  "no_null_links mem conn =
     (\<forall>a. 0 \<notin> set (atom_neighbors (atom_obj mem a)) \<and> 0 \<notin> set (conn a))"

definition link_weight :: "Memory \<Rightarrow> (nat \<Rightarrow> nat list) \<Rightarrow> nat \<Rightarrow> nat" where
  "link_weight mem conn a = 1 + length (atom_neighbors (atom_obj mem a)) + length (conn a)"

definition closed_links :: "Memory \<Rightarrow> (nat \<Rightarrow> nat list) \<Rightarrow> nat set \<Rightarrow> bool" where
  "closed_links mem conn U =
     (\<forall>a \<in> U. set (atom_neighbors (atom_obj mem a)) \<subseteq> U \<and> set (conn a) \<subseteq> U)"

definition chloride_structure :: AtomicStructure where
  "chloride_structure =
     \<lparr>this_ptr = 4, atoms = [1, 2, 3, 4, 5], bonds = [(2, 3), (2, 4)],
      residues = [10, 11, 12], chains = None\<rparr>"

definition bound_water_structure :: AtomicStructure where
  "bound_water_structure =
     \<lparr>this_ptr = 5, atoms = [2, 3, 4, 6, 7, 8, 9], bonds = [(2, 3), (2, 4), (6, 7), (7, 8), (8, 9)],
      residues = [11, 13], chains = Some [20]\<rparr>"

section \<open>Properties of the error budget\<close>

lemma unat_std_min: "unat (std_min a b) = min (unat a) (unat b)"
  by (simp add: std_min_def word_less_nat_alt min_def)

lemma unat_std_max: "unat (std_max a b) = max (unat a) (unat b)"
  by (simp add: std_max_def word_less_nat_alt max_def)

lemma unat_gap_sum_loop:
  "unat (gap_sum_loop acc gs) = (unat acc + sum_list (map unat gs)) mod 2 ^ 32"
proof (induction gs arbitrary: acc)
  case Nil
  have "unat acc < 2 ^ 32" using unsigned_less [of acc] by simp
  then show ?case by simp
next
  case (Cons g gs)
  have "unat (gap_sum_loop acc (g # gs)) =
        (unat (acc + g) + sum_list (map unat gs)) mod 2 ^ 32"
    using Cons.IH [of "acc + g"] by simp
  also have "\<dots> = ((unat acc + unat g) mod 2 ^ 32 + sum_list (map unat gs)) mod 2 ^ 32"
    by (simp add: unat_word_ariths)
  also have "\<dots> = (unat acc + unat g + sum_list (map unat gs)) mod 2 ^ 32"
    by (rule mod_add_left_eq)
  finally show ?case by (simp add: add.assoc)
qed

text \<open>
  C7. The error budget that \<open>make_chains\<close> passes to \<open>try_assoc\<close> is
  \<open>min(seq_len/2, max(seq_len/10, total_gap))\<close>, where \<open>seq_len\<close> is the
  chain's length and \<open>total_gap\<close> the sum of the estimated gap sizes, both read as
  the \<open>unsigned int\<close> values the code computes with.
\<close>

theorem make_chains_error_budget:
  "make_chains_try_assoc try_assoc sr_seq chain ap =
     try_assoc sr_seq chain ap (make_chains_max_errs (length chain) ap)
   \<and> unat (make_chains_max_errs (length chain) ap) =
       min ((length chain mod 2 ^ 32) div 2)
           (max ((length chain mod 2 ^ 32) div 10)
                (sum_list (map unat (gaps ap)) mod 2 ^ 32))
   \<and> (length chain < 2 ^ 32 \<longrightarrow> sum_list (map unat (gaps ap)) < 2 ^ 32 \<longrightarrow>
        unat (make_chains_max_errs (length chain) ap) =
          min (length chain div 2)
              (max (length chain div 10) (sum_list (map unat (gaps ap)))))"
  by (simp add: make_chains_try_assoc_def make_chains_max_errs_def Let_def
      unat_std_min unat_std_max unat_div unat_gap_sum_loop unat_of_nat)

text \<open>
  Witness for C7: a chain of 20 residues with estimated gaps 3 and 4 gets the budget
  min(10, max(2, 7)) = 7.
\<close>

theorem make_chains_error_budget_witness:
  "unat (make_chains_max_errs (length (replicate 20 (CHR ''A'')))
           \<lparr>est_len = 27, segments = [], gaps = [3, 4]\<rparr>) = 7"
  using make_chains_error_budget
          [where chain = "replicate 20 (CHR ''A'')"
             and ap = "\<lparr>est_len = 27, segments = [], gaps = [3, 4]\<rparr>"
             and try_assoc = "\<lambda>sr ch ap max_errs. Some max_errs" and sr_seq = "[]"]
  by simp

section \<open>Atom::set\_name\<close>

text \<open>
  C10. Calling \<open>set_name\<close> with the atom's current name leaves the atom and the
  change tracker unchanged; with a different name the name is updated and exactly one
  modification, with reason "name", is recorded for the atom (one call of
  \<open>add_modified\<close>): the atom joins the modified set of the Atom slot, the slot's
  reason list grows by the one entry "name", and nothing else in the tracker changes.
\<close>

theorem set_name_frame:
  "(name = atom_name a \<longrightarrow> set_name name (a, ct) = (a, ct)) \<and>
   (name \<noteq> atom_name a \<longrightarrow>
      (\<exists>a' ct'. set_name name (a, ct) = (a', ct') \<and>
         a' = a\<lparr>atom_name := name\<rparr> \<and>
         ct' = add_modified ATOM_CLASS (atom_ptr a) REASON_NAME ct \<and>
         reasons (ct' ATOM_CLASS) = reasons (ct ATOM_CLASS) @ [''name''] \<and>
         modified (ct' ATOM_CLASS) = insert (atom_ptr a) (modified (ct ATOM_CLASS)) \<and>
         created (ct' ATOM_CLASS) = created (ct ATOM_CLASS) \<and>
         num_deleted (ct' ATOM_CLASS) = num_deleted (ct ATOM_CLASS) \<and>
         (\<forall>cls. cls \<noteq> ATOM_CLASS \<longrightarrow> ct' cls = ct cls)))"
  by (simp add: set_name_def add_modified_def REASON_NAME_def)

text \<open>Witness for C10: an oxygen atom named "O" is renamed "O" and then "OW".\<close>

theorem set_name_frame_witness:
  "set_name ''O'' (atom_obj example_memory 30, empty_tracker) =
     (atom_obj example_memory 30, empty_tracker) \<and>
   atom_name (fst (set_name ''OW'' (atom_obj example_memory 30, empty_tracker))) = ''OW'' \<and>
   reasons (snd (set_name ''OW'' (atom_obj example_memory 30, empty_tracker)) ATOM_CLASS) = [''name'']"
  using set_name_frame
          [where name = "''O''" and a = "atom_obj example_memory 30" and ct = empty_tracker]
        set_name_frame
          [where name = "''OW''" and a = "atom_obj example_memory 30" and ct = empty_tracker]
  by (auto simp: example_memory_def empty_tracker_def)

section \<open>AtomicStructure::session\_restore\<close>

text \<open>
  C6. A requested version above the current session version makes \<open>session_restore\<close>
  throw before anything is restored (the structure's state is the one it was called with); a
  version at or below the current one passes the version check, and with the three 7-element
  lists that a save produces the restore proceeds into the body.
\<close>

theorem session_restore_version_check:
  "(version > cur \<longrightarrow>
      session_restore cur body version ints floats misc s =
        (Some (Invalid_argument version_too_new_msg), s)) \<and>
   (version \<le> cur \<longrightarrow> length il = 7 \<longrightarrow> length fl = 7 \<longrightarrow> length ml = 7 \<longrightarrow>
      session_restore cur body version (PyList il) (PyList fl) (PyList ml) s =
        body version (PyList il) (PyList fl) (PyList ml) s)"
  by (simp add: session_restore_def)

text \<open>Witness for C6: current version 1; version 2 is refused, version 1 reaches the body.\<close>

theorem session_restore_version_check_witness:
  "session_restore 1 no_body 2 (PyList seven) (PyList seven) (PyList seven) (0::nat) =
     (Some (Invalid_argument version_too_new_msg), 0) \<and>
   session_restore 1 no_body 1 (PyList seven) (PyList seven) (PyList seven) (0::nat) = (None, 1)"
  using session_restore_version_check
          [where version = 2 and cur = 1 and body = no_body and ints = "PyList seven"
             and floats = "PyList seven" and misc = "PyList seven" and s = "0::nat"
             and il = seven and fl = seven and ml = seven]
        session_restore_version_check
          [where version = 1 and cur = 1 and body = no_body and ints = "PyList seven"
             and floats = "PyList seven" and misc = "PyList seven" and s = "0::nat"
             and il = seven and fl = seven and ml = seven]
  by (simp add: seven_def no_body_def)

section \<open>Proxy\_PBGroup dispatch\<close>





text \<open>
  On a proxy made with the tag \<open>GRP_NORMAL\<close> the members written without
  \<open>return\<close> or \<open>else\<close> call the proxied object twice, the second
  time through the cast to CS\_PBGroup; both calls run the same body.
\<close>

lemma proxy_clear_runs_twice:
  "proxy_calls M_clear (init GRP_NORMAL n) =
     [(StructurePBGroup_class, StructurePBGroup_class), (CS_PBGroup_class, StructurePBGroup_class)] \<and>
   proxy_calls M_check_destroyed_atoms (init GRP_NORMAL n) =
     [(StructurePBGroup_class, StructurePBGroup_class), (CS_PBGroup_class, StructurePBGroup_class)] \<and>
   proxy_calls M_set_default_color (init GRP_NORMAL n) =
     [(StructurePBGroup_class, Group_class), (CS_PBGroup_class, Group_class)] \<and>
   proxy_calls M_set_default_halfbond (init GRP_NORMAL n) =
     [(StructurePBGroup_class, Group_class), (CS_PBGroup_class, Group_class)] \<and>
   proxy_calls M_gc_clear (init GRP_NORMAL n) =
     [(StructurePBGroup_class, GraphicsContainer_class), (CS_PBGroup_class, GraphicsContainer_class)] \<and>
   proxy_calls M_clear (init GRP_PER_CS n) = [(CS_PBGroup_class, CS_PBGroup_class)]"
  by (simp add: dispatch_fallthrough_def call_through_def init_def GRP_PER_CS_def GRP_NORMAL_def
      GRP_NONE_def)



section \<open>Coordinate sets\<close>

text \<open>
  With an id that no coordinate set of the vector has, the insertion keeps the vector in
  strictly increasing id order and deletes nothing.
\<close>

lemma coord_set_insert_loop_new_id:
  assumes "heap cs = Some \<lparr>cs_id = index, cs_coords_size = sz\<rparr>"
  shows "\<forall>p \<in> set ps. \<exists>c. heap p = Some c \<and> cs_id c \<noteq> index \<Longrightarrow>
         sorted_wrt (id_before heap) ps \<Longrightarrow>
         \<exists>p \<in> set ps. id_before heap cs p \<Longrightarrow>
         \<exists>ps'. coord_set_insert_loop heap cs index ps = Inr (ps', heap) \<and>
               set ps' = insert cs (set ps) \<and> sorted_wrt (id_before heap) ps'"
proof (induction ps)
  case Nil
  then show ?case by simp
next
  case (Cons p ps)
  from Cons.prems(1) obtain c where c: "heap p = Some c" "cs_id c \<noteq> index" by auto
  show ?case
  proof (cases "index < cs_id c")
    case True
    have "id_before heap cs p" using assms c True by (simp add: id_before_def)
    moreover have "id_before heap cs q" if "q \<in> set ps" for q
    proof -
      have "id_before heap p q" using Cons.prems(2) that by simp
      then show ?thesis using assms c True by (auto simp: id_before_def split: option.splits)
    qed
    ultimately have "sorted_wrt (id_before heap) (cs # p # ps)"
      using Cons.prems(2) by simp
    then show ?thesis using c True by auto
  next
    case False
    then have lt: "cs_id c < index" using c(2) by simp
    have 1: "\<forall>q \<in> set ps. \<exists>c. heap q = Some c \<and> cs_id c \<noteq> index" using Cons.prems(1) by simp
    have 2: "sorted_wrt (id_before heap) ps" using Cons.prems(2) by simp
    have 3: "\<exists>q \<in> set ps. id_before heap cs q"
      using Cons.prems(3) False assms c by (auto simp: id_before_def)
    from Cons.IH [OF 1 2 3] obtain ps' where ps': "coord_set_insert_loop heap cs index ps = Inr (ps', heap)"
      "set ps' = insert cs (set ps)" "sorted_wrt (id_before heap) ps'" by blast
    have "id_before heap p q" if "q \<in> set ps'" for q
    proof (cases "q = cs")
      case True
      then show ?thesis using assms c lt by (simp add: id_before_def)
    next
      case False
      then have "q \<in> set ps" using that ps'(2) by auto
      then show ?thesis using Cons.prems(2) by simp
    qed
    then have "sorted_wrt (id_before heap) (p # ps')" using ps'(3) by simp
    then show ?thesis using c False ps' by auto
  qed
qed

lemma coord_set_insert_new_id:
  assumes "heap cs = Some \<lparr>cs_id = index, cs_coords_size = sz\<rparr>"
    and "\<forall>p \<in> set css. \<exists>c. heap p = Some c \<and> cs_id c \<noteq> index"
    and "sorted_wrt (id_before heap) css"
  shows "\<exists>css'. coord_set_insert heap css cs index = Inr (css', heap) \<and>
               set css' = insert cs (set css) \<and> sorted_wrt (id_before heap) css'"
proof (cases "css = []")
  case True
  then show ?thesis by (simp add: coord_set_insert_def)
next
  case False
  then have l: "last css \<in> set css" by simp
  with assms(2) obtain c where c: "heap (last css) = Some c" "cs_id c \<noteq> index" by auto
  show ?thesis
  proof (cases "cs_id c < index")
    case True
    have "id_before heap q cs" if "q \<in> set css" for q
    proof (cases "q = last css")
      case True
      then show ?thesis using assms(1) c \<open>cs_id c < index\<close> by (simp add: id_before_def)
    next
      case ne: False
      obtain pre where pre: "css = pre @ [last css]"
        using False append_butlast_last_id by metis
      then have "q \<in> set pre" using that ne by (metis Un_iff empty_iff insert_iff list.set(1,2) set_append)
      moreover have "sorted_wrt (id_before heap) (pre @ [last css])" using assms(3) pre by simp
      ultimately have "id_before heap q (last css)" by (simp add: sorted_wrt_append)
      then show ?thesis
        using assms(1) c True by (auto simp: id_before_def split: option.splits)
    qed
    then have "sorted_wrt (id_before heap) (css @ [cs])"
      using assms(3) by (simp add: sorted_wrt_append)
    then show ?thesis using False c True by (auto simp: coord_set_insert_def)
  next
    case ge: False
    then have "id_before heap cs (last css)" using assms(1) c by (simp add: id_before_def)
    then have "\<exists>p \<in> set css. id_before heap cs p" using l by blast
    from coord_set_insert_loop_new_id [OF assms(1,2,3) this]
    show ?thesis using False c ge by (simp add: coord_set_insert_def)
  qed
qed

text \<open>
  C9 at a concrete structure: with coordinate sets 0 and 1 at addresses 10 and 11,
  \<open>new_coord_set(1, 5)\<close> returns the new object at address 12, deletes the object at
  address 11 and leaves its pointer in the vector, behind the new one: the vector has three
  entries, the last of which points to a deleted object. The next
  \<open>new_coord_set(2, 5)\<close> reads the id through that pointer.
\<close>

theorem new_coord_set_same_id_keeps_deleted_pointer:
  "\<exists>st'. new_coord_set_size 1 5 two_coord_sets = Inr (12, st') \<and>
         coord_sets st' = [10, 12, 11] \<and>
         cs_heap st' 11 = None \<and>
         cs_heap st' 12 = Some \<lparr>cs_id = 1, cs_coords_size = 5\<rparr> \<and>
         live_ids st' = [0, 1] \<and>
         new_coord_set_size 2 5 st' = Inl Use_after_delete"
  by (simp add: new_coord_set_size_def two_coord_sets_def coord_set_insert_def
      live_ids_def List.map_filter_def)

section \<open>Deletion from the structure graph\<close>

lemma length_sort_remdups_all:
  assumes "distinct xs" and "set ds = set xs"
  shows "length (sort (remdups ds)) = length (xs :: nat list)"
proof -
  have "length (sort (remdups ds)) = card (set ds)"
    by (simp add: length_remdups_card_conv)
  also have "\<dots> = length xs"
    using assms by (simp add: distinct_card)
  finally show ?thesis .
qed

text \<open>
  C1. Deleting the structure's last remaining atom with \<open>delete_atom\<close>, deleting a
  set of atoms that covers every atom of the structure with \<open>delete_atoms\<close>, or
  deleting its last remaining residue with \<open>delete_residue\<close> runs \<open>delete
  this\<close>: no structure is left.
\<close>

theorem delete_last_destroys_structure:
  "(atoms s = [a] \<longrightarrow> atom_structure (atom_obj mem a) = this_ptr s \<longrightarrow>
      snd (snd (delete_atom str mem s a)) = None) \<and>
   (distinct (atoms s) \<longrightarrow> set del_atoms = set (atoms s) \<longrightarrow>
      snd (delete_atoms mem s del_atoms) = None) \<and>
   (residues s = [r] \<longrightarrow> snd (snd (delete_residue str mem s r)) = None)"
proof (intro conjI impI)
  assume "atoms s = [a]" and "atom_structure (atom_obj mem a) = this_ptr s"
  then show "snd (snd (delete_atom str mem s a)) = None"
    by (simp add: delete_atom_def)
next
  assume "distinct (atoms s)" and "set del_atoms = set (atoms s)"
  then have "length (sort (remdups del_atoms)) = length (atoms s)"
    by (rule length_sort_remdups_all)
  then show "snd (delete_atoms mem s del_atoms) = None"
    by (simp add: delete_atoms_def)
next
  assume "residues s = [r]"
  then show "snd (snd (delete_residue str mem s r)) = None"
    by (simp add: delete_residue_def)
qed

text \<open>
  Witness for C1: structure 2 has the one atom 35 in the one residue 25; structure 1 has the
  atoms 30, 31, 32, all named in the list given to \<open>delete_atoms\<close>.
\<close>

theorem delete_last_destroys_structure_witness:
  "snd (snd (delete_atom example_str example_memory single_atom_structure 35)) = None \<and>
   snd (delete_atoms example_memory example_structure [32, 30, 31, 30]) = None \<and>
   snd (snd (delete_residue example_str example_memory single_atom_structure 25)) = None"
  using delete_last_destroys_structure
          [where s = single_atom_structure and a = 35 and mem = example_memory
             and str = example_str and del_atoms = "[35]" and r = 25]
        delete_last_destroys_structure
          [where s = example_structure and a = 30 and mem = example_memory
             and str = example_str and del_atoms = "[32, 30, 31, 30]" and r = 20]
  by (auto simp: single_atom_structure_def example_structure_def example_memory_def)

text \<open>
  C8. For an atom that belongs to another structure, \<open>delete_atom\<close> hands one error
  message to the logger and returns with the memory and the structure as they were; for a
  residue that is not in the structure's residue list, \<open>delete_residue\<close> does the
  same. Nothing is thrown: the operations have no error result.
\<close>

theorem delete_foreign_is_logged_noop:
  "(atom_structure (atom_obj mem a) \<noteq> this_ptr s \<longrightarrow>
      delete_atom str mem s a = ([foreign_atom_msg str mem a], mem, Some s)) \<and>
   (r \<notin> set (residues s) \<longrightarrow>
      delete_residue str mem s r = ([foreign_residue_msg str r], mem, Some s))"
  by (simp add: delete_atom_def delete_residue_def)

text \<open>
  Witness for C8: atom 35 and residue 25 belong to structure 2 and are handed to structure 1.
\<close>

theorem delete_foreign_is_logged_noop_witness:
  "delete_atom example_str example_memory example_structure 35 =
     ([foreign_atom_msg example_str example_memory 35], example_memory, Some example_structure) \<and>
   delete_residue example_str example_memory example_structure 25 =
     ([foreign_residue_msg example_str 25], example_memory, Some example_structure)"
  using delete_foreign_is_logged_noop
          [where mem = example_memory and a = 35 and s = example_structure
             and str = example_str and r = 25]
  by (simp add: example_structure_def example_memory_def)


section \<open>Pseudobond groups: isolation of coordinate sets\<close>

lemma init_proxy_ok: "proxy_ok (init grp_type n)"
  by (simp add: proxy_ok_def init_def)

lemma ran_upd_subset: "\<Union> (ran (m(k \<mapsto> v))) \<subseteq> v \<union> \<Union> (ran m)"
  by (auto simp: ran_def split: if_splits)

lemma Proxy_new_pseudobond_cs_ok:
  assumes "proxy_ok g" and "Proxy_new_pseudobond_cs a1 a2 cs g = Inr (pb, g')"
  shows "proxy_ok g'"
proof -
  from assms(2) obtain pbonds where p: "proxied g = Proxied_CS_PBGroup pbonds"
    and nn: "group_type g \<noteq> GRP_NORMAL"
    and g': "g' = snd (CS_PBGroup_new_pseudobond_cs a1 a2 cs pbonds g)"
    by (auto simp: Proxy_new_pseudobond_cs_def split: if_splits proxied.splits)
  have old: "\<forall>x \<in> \<Union> (ran pbonds). x < pb_next g"
    using assms(1) p by (simp add: proxy_ok_def)
  have sub: "(case pbonds cs of None \<Rightarrow> {} | Some pbs \<Rightarrow> pbs) \<subseteq> \<Union> (ran pbonds)"
    by (auto simp: ran_def split: option.splits)
  have "\<forall>x \<in> \<Union> (ran (pbonds(cs \<mapsto> insert (pb_next g)
            (case pbonds cs of None \<Rightarrow> {} | Some pbs \<Rightarrow> pbs)))). x < Suc (pb_next g)"
    using ran_upd_subset [of pbonds cs] old sub by fastforce
  then show ?thesis
    using nn by (simp add: g' proxy_ok_def CS_PBGroup_new_pseudobond_cs_def Let_def)
qed

lemma fresh_not_stored:
  assumes "proxy_ok g" and "proxied g = Proxied_CS_PBGroup pbonds" and "pbonds cs = Some pbs"
  shows "pb_next g \<notin> pbs"
proof
  assume "pb_next g \<in> pbs"
  then have "pb_next g \<in> \<Union> (ran pbonds)"
    using assms(3) by (auto simp: ran_def)
  then have "pb_next g < pb_next g"
    using assms(1,2) by (auto simp: proxy_ok_def)
  then show False by simp
qed

lemma Proxy_new_pseudobond_ok:
  assumes "proxy_ok g" and "Proxy_new_pseudobond a1 a2 active g = Inr (pb, g')"
  shows "proxy_ok g'"
proof (cases "group_type g = GRP_NORMAL")
  case True
  with assms(2) obtain pbonds where p: "proxied g = Proxied_StructurePBGroup pbonds"
    and g': "g' = snd (StructurePBGroup_new_pseudobond a1 a2 pbonds g)"
    by (auto simp: Proxy_new_pseudobond_def split: proxied.splits)
  have "\<forall>x \<in> pbonds. x < pb_next g" using assms(1) p by (simp add: proxy_ok_def)
  then show ?thesis
    using True by (auto simp: g' proxy_ok_def StructurePBGroup_new_pseudobond_def Let_def)
next
  case False
  with assms(2) have "Proxy_new_pseudobond_cs a1 a2 active g = Inr (pb, g')"
    by (auto simp: Proxy_new_pseudobond_def Proxy_new_pseudobond_cs_def
        CS_PBGroup_new_pseudobond_def split: proxied.splits)
  with assms(1) show ?thesis by (rule Proxy_new_pseudobond_cs_ok)
qed

lemma Proxy_pseudobonds_cs_ok:
  assumes "proxy_ok g" and "Proxy_pseudobonds_cs cs g = Inr (pbs, g')"
  shows "proxy_ok g'"
proof -
  from assms(2) obtain pbonds where p: "proxied g = Proxied_CS_PBGroup pbonds"
    and nn: "group_type g \<noteq> GRP_NORMAL"
    and g': "g' = g\<lparr>proxied := Proxied_CS_PBGroup (snd (CS_PBGroup_pseudobonds_cs cs pbonds))\<rparr>"
    by (auto simp: Proxy_pseudobonds_cs_def split: if_splits proxied.splits prod.splits)
  have old: "\<forall>x \<in> \<Union> (ran pbonds). x < pb_next g"
    using assms(1) p by (simp add: proxy_ok_def)
  have "\<Union> (ran (snd (CS_PBGroup_pseudobonds_cs cs pbonds))) \<subseteq> \<Union> (ran pbonds)"
    using ran_upd_subset [of pbonds cs "{}"]
    by (auto simp: CS_PBGroup_pseudobonds_cs_def split: option.splits)
  then show ?thesis using old nn by (auto simp: g' proxy_ok_def)
qed

lemma Proxy_pseudobonds_ok:
  assumes "proxy_ok g" and "Proxy_pseudobonds active g = Inr (pbs, g')"
  shows "proxy_ok g'"
proof (cases "group_type g = GRP_NORMAL")
  case True
  with assms(2) have "g' = g" by (auto simp: Proxy_pseudobonds_def split: proxied.splits)
  with assms(1) show ?thesis by simp
next
  case False
  with assms(2) have "Proxy_pseudobonds_cs active g = Inr (pbs, g')"
    by (auto simp: Proxy_pseudobonds_def Proxy_pseudobonds_cs_def CS_PBGroup_pseudobonds_def
        split: proxied.splits)
  with assms(1) show ?thesis by (rule Proxy_pseudobonds_cs_ok)
qed

text \<open>
  C5. In a per-coordinate-set group (a proxy whose tag is not \<open>GRP_NORMAL\<close>), a
  pseudobond created with CoordSet \<open>cs0\<close>, supplied explicitly or as the active one,
  is returned by the query under \<open>cs0\<close> and not by the query under any other
  CoordSet \<open>cs1\<close>, whether \<open>cs1\<close> is supplied explicitly or is the
  active one. In a group with tag \<open>GRP_NORMAL\<close> the query returns the group's single
  set, whatever the active CoordSet is, and the pseudobond created is in it.
\<close>

theorem pseudobonds_per_coordset_isolation:
  assumes "proxy_ok g"
  shows "(group_type g \<noteq> GRP_NORMAL \<longrightarrow> cs1 \<noteq> cs0 \<longrightarrow>
            (\<exists>pb g' here there there'.
               Proxy_new_pseudobond_cs a1 a2 cs0 g = Inr (pb, g') \<and>
               Proxy_new_pseudobond a1 a2 cs0 g = Inr (pb, g') \<and>
               returned (Proxy_pseudobonds_cs cs0 g') = Some here \<and> pb \<in> here \<and>
               returned (Proxy_pseudobonds cs0 g') = Some here \<and>
               returned (Proxy_pseudobonds_cs cs1 g') = Some there \<and> pb \<notin> there \<and>
               returned (Proxy_pseudobonds cs1 g') = Some there' \<and> pb \<notin> there')) \<and>
         (group_type g = GRP_NORMAL \<longrightarrow>
            (\<exists>pb g' pbonds.
               Proxy_new_pseudobond a1 a2 cs0 g = Inr (pb, g') \<and>
               proxied g' = Proxied_StructurePBGroup pbonds \<and> pb \<in> pbonds \<and>
               Proxy_pseudobonds cs0 g' = Inr (pbonds, g') \<and>
               Proxy_pseudobonds cs1 g' = Inr (pbonds, g')))"
proof (intro conjI impI)
  assume nn: "group_type g \<noteq> GRP_NORMAL" and ne: "cs1 \<noteq> cs0"
  from assms nn obtain pbonds where p: "proxied g = Proxied_CS_PBGroup pbonds"
    by (cases "proxied g") (auto simp: proxy_ok_def)
  define old where "old = (case pbonds cs0 of None \<Rightarrow> {} | Some pbs \<Rightarrow> pbs)"
  define pb where "pb = pb_next g"
  define g' where "g' = snd (CS_PBGroup_new_pseudobond_cs a1 a2 cs0 pbonds g)"
  have g'_p: "proxied g' = Proxied_CS_PBGroup (pbonds(cs0 \<mapsto> insert pb old))"
    and g'_t: "group_type g' = group_type g"
    by (simp_all add: g'_def CS_PBGroup_new_pseudobond_cs_def Let_def old_def pb_def)
  have c1: "Proxy_new_pseudobond_cs a1 a2 cs0 g = Inr (pb, g')"
    using nn p by (simp add: Proxy_new_pseudobond_cs_def g'_def pb_def
        CS_PBGroup_new_pseudobond_cs_def Let_def)
  have c2: "Proxy_new_pseudobond a1 a2 cs0 g = Inr (pb, g')"
    using nn p by (simp add: Proxy_new_pseudobond_def CS_PBGroup_new_pseudobond_def g'_def pb_def
        CS_PBGroup_new_pseudobond_cs_def Let_def)
  have q0: "returned (Proxy_pseudobonds_cs cs0 g') = Some (insert pb old)"
    using nn by (simp add: Proxy_pseudobonds_cs_def g'_p g'_t CS_PBGroup_pseudobonds_cs_def
        returned_def)
  have q0': "returned (Proxy_pseudobonds cs0 g') = Some (insert pb old)"
    using nn by (simp add: Proxy_pseudobonds_def g'_p g'_t CS_PBGroup_pseudobonds_def
        CS_PBGroup_pseudobonds_cs_def returned_def)
  define there where "there = (case pbonds cs1 of None \<Rightarrow> {} | Some pbs \<Rightarrow> pbs)"
  have q1: "returned (Proxy_pseudobonds_cs cs1 g') = Some there"
    using nn ne by (simp add: Proxy_pseudobonds_cs_def g'_p g'_t CS_PBGroup_pseudobonds_cs_def
        returned_def there_def split: option.splits)
  have q1': "returned (Proxy_pseudobonds cs1 g') = Some there"
    using nn ne by (simp add: Proxy_pseudobonds_def g'_p g'_t CS_PBGroup_pseudobonds_def
        CS_PBGroup_pseudobonds_cs_def returned_def there_def split: option.splits)
  have fresh: "pb \<notin> there"
    using fresh_not_stored [OF assms p, of cs1] by (auto simp: there_def pb_def split: option.splits)
  show "\<exists>pb g' here there there'.
          Proxy_new_pseudobond_cs a1 a2 cs0 g = Inr (pb, g') \<and>
          Proxy_new_pseudobond a1 a2 cs0 g = Inr (pb, g') \<and>
          returned (Proxy_pseudobonds_cs cs0 g') = Some here \<and> pb \<in> here \<and>
          returned (Proxy_pseudobonds cs0 g') = Some here \<and>
          returned (Proxy_pseudobonds_cs cs1 g') = Some there \<and> pb \<notin> there \<and>
          returned (Proxy_pseudobonds cs1 g') = Some there' \<and> pb \<notin> there'"
    using c1 c2 q0 q0' q1 q1' fresh by blast
next
  assume n: "group_type g = GRP_NORMAL"
  from assms n obtain pbonds where p: "proxied g = Proxied_StructurePBGroup pbonds"
    by (cases "proxied g") (auto simp: proxy_ok_def)
  show "\<exists>pb g' pbonds.
          Proxy_new_pseudobond a1 a2 cs0 g = Inr (pb, g') \<and>
          proxied g' = Proxied_StructurePBGroup pbonds \<and> pb \<in> pbonds \<and>
          Proxy_pseudobonds cs0 g' = Inr (pbonds, g') \<and>
          Proxy_pseudobonds cs1 g' = Inr (pbonds, g')"
    using n p by (simp add: Proxy_new_pseudobond_def StructurePBGroup_new_pseudobond_def
        Proxy_pseudobonds_def Let_def)
qed

text \<open>
  Witness for C5: in a fresh per-coordset group a pseudobond made under CoordSet 10 has address
  0; the query under 10 returns it and the query under 11 returns nothing. In a fresh normal
  group the query returns it whatever the active CoordSet.
\<close>

theorem pseudobonds_per_coordset_isolation_witness:
  "returned (Proxy_new_pseudobond_cs 1 2 10 (init GRP_PER_CS 0)) = Some 0 \<and>
   (\<exists>g'. group_after (Proxy_new_pseudobond_cs 1 2 10 (init GRP_PER_CS 0)) = Some g' \<and>
      returned (Proxy_pseudobonds 10 g') = Some {0} \<and>
      returned (Proxy_pseudobonds 11 g') = Some {}) \<and>
   (\<exists>g'. group_after (Proxy_new_pseudobond 1 2 10 (init GRP_NORMAL 0)) = Some g' \<and>
      returned (Proxy_pseudobonds 11 g') = Some {0})"
  using pseudobonds_per_coordset_isolation
          [OF init_proxy_ok, where grp_type1 = GRP_PER_CS and n1 = 0 and ?cs0.0 = 10
             and ?cs1.0 = 11 and ?a1.0 = 1 and ?a2.0 = 2]
        pseudobonds_per_coordset_isolation
          [OF init_proxy_ok, where grp_type1 = GRP_NORMAL and n1 = 0 and ?cs0.0 = 10
             and ?cs1.0 = 11 and ?a1.0 = 1 and ?a2.0 = 2]
  by (simp add: init_def GRP_PER_CS_def GRP_NORMAL_def GRP_NONE_def
      Proxy_new_pseudobond_cs_def Proxy_new_pseudobond_def Proxy_pseudobonds_def
      CS_PBGroup_new_pseudobond_cs_def CS_PBGroup_new_pseudobond_def
      StructurePBGroup_new_pseudobond_def CS_PBGroup_pseudobonds_def
      CS_PBGroup_pseudobonds_cs_def returned_def group_after_def Let_def)


section \<open>best\_alt\_locs: the walk ends and the best code is chosen\<close>















































text \<open>
  The rounding at work: 16777217 is not a float and becomes 16777216, 16777219 becomes
  16777220, a tenth becomes the nearest float; the largest float is kept and the number halfway
  from it to \<open>2^128\<close> becomes infinity; the smallest positive float is kept and
  half of it becomes 0.
\<close>

lemma float_examples:
  "round_float 16777217 = Finite 16777216 \<and>
   round_float 16777219 = Finite 16777220 \<and>
   round_float (1 / 10) = Finite (13421773 / 134217728) \<and>
   round_float (2 ^ 128 - 2 ^ 104) = Finite (2 ^ 128 - 2 ^ 104) \<and>
   round_float (2 ^ 128 - 2 ^ 103) = PInf \<and>
   round_float (1 / 2 ^ 149) = Finite (1 / 2 ^ 149) \<and>
   round_float (1 / 2 ^ 150) = Finite 0 \<and>
   int_to_float 3 = Finite 3 \<and>
   fdiv (Finite 1) (int_to_float 3) = Finite (11184811 / 33554432)"
  by code_simp

text \<open>
  What the two provisos leave out. With a mean that is NaN the comparisons of the loop are all
  false: of the codes A (mean occupancy 1/2), B (NaN) and C (1/4), with falling bfactors, C is
  chosen. With the character 0 as a code the loop takes its choice of that code for "nothing
  chosen yet": of the codes 0 (mean occupancy 3/4) and A (1/4), A is chosen.
\<close>

lemma nan_and_null_code_examples:
  "best_loc_of 2 nan_memory one_residue_structure 40 = Some (CHR ''C'') \<and>
   best_loc_of 2 null_code_memory one_residue_structure 40 = Some (CHR ''A'')"
  by code_simp


section \<open>Structure categories: the small solvents\<close>

lemma root_of_in: "grp \<noteq> [] \<Longrightarrow> root_of grp \<in> set grp"
  by (cases grp) auto

lemma same_group:
  assumes "wf_bonded bonded" and "G \<in> set bonded" and "H \<in> set bonded"
    and "a \<in> set G" and "a \<in> set H"
  shows "H = G"
proof (rule ccontr)
  assume ne: "H \<noteq> G"
  have d: "distinct (concat bonded)" using assms(1) by (simp add: wf_bonded_def)
  have "set G \<inter> set H = {}"
    using d assms(2,3) ne unfolding distinct_concat_iff by blast
  then show False using assms(4,5) by auto
qed

lemma last_filter_in:
  "filter P xs = y # ys \<Longrightarrow> last (y # ys) \<in> set xs \<and> P (last (y # ys))"
proof -
  assume f: "filter P xs = y # ys"
  have "last (y # ys) \<in> set (filter P xs)" unfolding f by (rule last_in_set) simp
  then show ?thesis by simp
qed

lemma group_lookup_cases:
  "group_lookup bonded r = [] \<or>
   (group_lookup bonded r \<in> set bonded \<and> root_of (group_lookup bonded r) = r)"
proof (cases "filter (\<lambda>grp. root_of grp = r) bonded")
  case Nil
  then show ?thesis by (simp add: group_lookup_def)
next
  case (Cons g gs)
  from last_filter_in [OF Cons] show ?thesis by (simp add: group_lookup_def Cons)
qed

lemma group_lookup_root:
  assumes "wf_bonded bonded" and "G \<in> set bonded"
  shows "group_lookup bonded (root_of G) = G"
proof -
  have ne: "G \<noteq> []" using assms by (auto simp: wf_bonded_def)
  have "filter (\<lambda>grp. root_of grp = root_of G) bonded \<noteq> []"
    using assms(2) by (auto simp: filter_empty_conv)
  then obtain g gs where f: "filter (\<lambda>grp. root_of grp = root_of G) bonded = g # gs"
    by (cases "filter (\<lambda>grp. root_of grp = root_of G) bonded") auto
  let ?H = "last (g # gs)"
  from last_filter_in [OF f] have H: "?H \<in> set bonded" "root_of ?H = root_of G" by simp_all
  have "?H \<noteq> []" using H(1) assms(1) by (auto simp: wf_bonded_def)
  then have "root_of G \<in> set ?H" using root_of_in [of ?H] H(2) by simp
  moreover have "root_of G \<in> set G" using ne by (rule root_of_in)
  ultimately have "?H = G" using same_group [OF assms(1,2) H(1)] by blast
  then show ?thesis by (simp add: group_lookup_def f)
qed

lemma in_group_lookup:
  assumes "wf_bonded bonded" and "G \<in> set bonded" and "x \<in> set G"
    and "x \<in> set (group_lookup bonded r)"
  shows "r = root_of G"
proof -
  from group_lookup_cases [of bonded r] assms(4)
  have H: "group_lookup bonded r \<in> set bonded" "root_of (group_lookup bonded r) = r" by auto
  have "group_lookup bonded r = G"
    using same_group [OF assms(1,2) H(1) assms(3,4)] .
  then show ?thesis using H(2) by simp
qed

lemma atom_to_root_cases:
  assumes "wf_bonded bonded" and "G \<in> set bonded" and "atom_to_root bonded a = root_of G"
  shows "a \<in> set G"
proof (cases "filter (\<lambda>grp. a \<in> set grp) bonded")
  case Nil
  then have "root_of G = 0" using assms(3) by (simp add: atom_to_root_def)
  moreover have "root_of G \<in> set G" using assms(1,2) by (auto simp: wf_bonded_def intro: root_of_in)
  ultimately show ?thesis using assms(1,2) by (auto simp: wf_bonded_def)
next
  case (Cons g gs)
  let ?H = "last (g # gs)"
  from last_filter_in [OF Cons] have H: "?H \<in> set bonded" "a \<in> set ?H" by simp_all
  have r: "root_of ?H = root_of G" using assms(3) by (simp add: atom_to_root_def Cons)
  have "?H \<noteq> []" using H(2) by auto
  then have "root_of G \<in> set ?H" using root_of_in [of ?H] r by simp
  moreover have "root_of G \<in> set G" using assms(1,2) by (auto simp: wf_bonded_def intro: root_of_in)
  ultimately have "?H = G" using same_group [OF assms(1,2) H(1)] by blast
  then show ?thesis using H(2) by simp
qed

lemma roots_iff: "r \<in> set (roots bonded) \<longleftrightarrow> (\<exists>G \<in> set bonded. root_of G = r)"
  by (auto simp: roots_def)

lemma root_in_concat:
  assumes "wf_bonded bonded" and "r \<in> set (roots bonded)"
  shows "r \<in> set (concat bonded) \<and> group_lookup bonded r \<in> set bonded \<and> r \<in> set (group_lookup bonded r)"
proof -
  from assms(2) obtain G where G: "G \<in> set bonded" "root_of G = r" by (auto simp: roots_iff)
  have "G \<noteq> []" using G(1) assms(1) by (auto simp: wf_bonded_def)
  then have "r \<in> set G" using root_of_in [of G] G(2) by simp
  moreover have "group_lookup bonded r = G" using group_lookup_root [OF assms(1) G(1)] G(2) by simp
  ultimately show ?thesis using G(1) by auto
qed

lemma fst_set_structure_category:
  "fst (set_structure_category sc a st) = (fst st)(a := sc)"
  by (cases st) (auto simp: set_structure_category_def)

lemma fst_set_group_category:
  "fst (set_group_category sc grp st) x = (if x \<in> set grp then sc else fst st x)"
  unfolding set_group_category_def
  by (induction grp arbitrary: st) (auto simp: fst_set_structure_category)

lemma fst_fold_groups:
  "fst (fold (\<lambda>r. set_group_category sc (f r)) rs st) x =
     (if \<exists>r \<in> set rs. x \<in> set (f r) then sc else fst st x)"
  by (induction rs arbitrary: st) (auto simp: fst_set_group_category)

lemma set_fold_set_erase: "set (fold set_erase xs rs) \<subseteq> set rs"
proof (induction xs arbitrary: rs)
  case Nil
  then show ?case by simp
next
  case (Cons a xs)
  have "set (fold set_erase xs (set_erase a rs)) \<subseteq> set (set_erase a rs)" by (rule Cons.IH)
  also have "\<dots> \<subseteq> set rs" by (auto simp: set_erase_def)
  finally show ?case by simp
qed

lemma set_set_insert: "set (set_insert x xs) = insert x (set xs)"
  by (auto simp: set_insert_def set_insort_key)

lemma small_solvent_not_in_root_set:
  assumes "is_small_solvent names mem bonded r"
  shows "r \<notin> set (initial_root_set names mem bonded)"
  using assms by (simp add: initial_root_set_def)

lemma assign_solvent_group:
  assumes "wf_bonded bonded" and "G \<in> set bonded"
    and "is_small_solvent names mem bonded (root_of G)" and "x \<in> set G"
  shows "fst (snd (assign_solvent names mem bonded st)) x = Solvent"
    and "set (fst (assign_solvent names mem bonded st)) \<subseteq> set (initial_root_set names mem bonded)"
proof -
  have "root_of G \<in> set (small_solvents names mem bonded)"
    using assms(2,3) by (auto simp: small_solvents_def roots_iff)
  moreover have "x \<in> set (group_lookup bonded (root_of G))"
    using group_lookup_root [OF assms(1,2)] assms(4) by simp
  ultimately have ex: "\<exists>r \<in> set (small_solvents names mem bonded). x \<in> set (group_lookup bonded r)"
    by blast
  show "fst (snd (assign_solvent names mem bonded st)) x = Solvent"
    using ex by (simp add: assign_solvent_def Let_def fst_fold_groups)
  show "set (fst (assign_solvent names mem bonded st)) \<subseteq> set (initial_root_set names mem bonded)"
    using set_fold_set_erase by (simp add: assign_solvent_def Let_def)
qed

lemma root_not_in_group:
  assumes "wf_bonded bonded" and "G \<in> set bonded" and "r \<in> set (roots bonded)"
    and "r \<noteq> root_of G"
  shows "r \<notin> set G"
proof
  assume "r \<in> set G"
  moreover from root_in_concat [OF assms(1,3)]
  have "group_lookup bonded r \<in> set bonded" "r \<in> set (group_lookup bonded r)" by simp_all
  ultimately have "r = root_of G" using in_group_lookup [OF assms(1,2)] by blast
  then show False using assms(4) by simp
qed

lemma set_seen_roots:
  "set (fold (\<lambda>a. set_insert (f a)) as acc) = set acc \<union> f ` set as"
  by (induction as arbitrary: acc) (auto simp: set_set_insert)

lemma set_fold_add_segment:
  "set (fold (add_segment mem bonded) rts ions) \<subseteq> set ions \<union> set rts"
proof (induction rts arbitrary: ions)
  case Nil
  then show ?case by simp
next
  case (Cons rt rts)
  have "set (add_segment mem bonded rt ions) \<subseteq> insert rt (set ions)"
    by (auto simp: add_segment_def set_set_insert)
  with Cons.IH [of "add_segment mem bonded rt ions"] show ?case by auto
qed

text \<open>
  The ion step leaves a small solvent alone when no root it can start from has an atom of the
  group in its residue.
\<close>

lemma expand_ion_avoids:
  assumes "wf_bonded bonded" and "G \<in> set bonded" and "ions_apart names mem bonded G"
    and "i \<in> set (roots bonded)" and "\<not> is_small_solvent names mem bonded i"
    and "length (group_lookup bonded i) = 1" and "i \<noteq> root_of G"
    and "root_of G \<notin> set (fst st)"
  shows "root_of G \<notin> set (fst (expand_ion mem bonded i st))"
proof -
  obtain ions checked where st: "st = (ions, checked)" by (cases st)
  let ?seen = "fold (\<lambda>a. set_insert (atom_to_root bonded a))
                 (res_atoms (residue_obj mem (residue_of mem i))) [i]"
  have apart: "\<forall>a \<in> set (res_atoms (residue_obj mem (residue_of mem i))). a \<notin> set G"
    using assms(3,4,5,6,7) by (simp add: ions_apart_def)
  have "root_of G \<notin> set ?seen"
  proof
    assume "root_of G \<in> set ?seen"
    then obtain a where a: "a \<in> set (res_atoms (residue_obj mem (residue_of mem i)))"
      "atom_to_root bonded a = root_of G"
      using assms(7) by (auto simp: set_seen_roots)
    have "a \<in> set G" using atom_to_root_cases [OF assms(1,2) a(2)] .
    then show False using apart a(1) by blast
  qed
  moreover have "set (fold (add_segment mem bonded) ?seen ions) \<subseteq> set ions \<union> set ?seen"
    by (rule set_fold_add_segment)
  ultimately have "root_of G \<notin> set (fold (add_segment mem bonded) ?seen ions)"
    using assms(8) st by auto
  then show ?thesis using assms(8) st by (auto simp: expand_ion_def Let_def)
qed

lemma fold_expand_ion_avoids:
  assumes "wf_bonded bonded" and "G \<in> set bonded" and "ions_apart names mem bonded G"
  shows "\<forall>i \<in> set is. i \<in> set (roots bonded) \<and> \<not> is_small_solvent names mem bonded i
                          \<and> length (group_lookup bonded i) = 1 \<and> i \<noteq> root_of G \<Longrightarrow>
         root_of G \<notin> set (fst st) \<Longrightarrow>
         root_of G \<notin> set (fst (fold (expand_ion mem bonded) is st))"
proof (induction "is" arbitrary: st)
  case Nil
  then show ?case by simp
next
  case (Cons i "is")
  have "root_of G \<notin> set (fst (expand_ion mem bonded i st))"
    using Cons.prems by (intro expand_ion_avoids [OF assms]) auto
  then show ?case using Cons.IH Cons.prems by simp
qed

lemma initial_root_set_roots:
  "set (initial_root_set names mem bonded) \<subseteq> set (roots bonded)"
  by (auto simp: initial_root_set_def)

lemma all_ions_avoid:
  assumes "wf_bonded bonded" and "G \<in> set bonded" and "ions_apart names mem bonded G"
    and "is_small_solvent names mem bonded (root_of G)"
    and "set root_set \<subseteq> set (initial_root_set names mem bonded)"
  shows "root_of G \<notin> set (all_ions is_noble_gas mem bonded root_set)"
proof -
  let ?ions = "initial_ions is_noble_gas mem bonded root_set"
  have sub: "set ?ions \<subseteq> set (initial_root_set names mem bonded)"
    using assms(5) by (auto simp: initial_ions_def)
  have nr: "root_of G \<notin> set (initial_root_set names mem bonded)"
    using assms(4) by (rule small_solvent_not_in_root_set)
  have ns: "\<forall>i \<in> set ?ions. \<not> is_small_solvent names mem bonded i"
    using sub by (auto simp: initial_root_set_def)
  have one: "\<forall>i \<in> set ?ions. length (group_lookup bonded i) = 1"
    by (simp add: initial_ions_def)
  have 1: "\<forall>i \<in> set ?ions. i \<in> set (roots bonded) \<and> \<not> is_small_solvent names mem bonded i
                           \<and> length (group_lookup bonded i) = 1 \<and> i \<noteq> root_of G"
    using sub nr ns one initial_root_set_roots by blast
  have 2: "root_of G \<notin> set (fst (?ions, [] :: nat list))" using sub nr by auto
  from fold_expand_ion_avoids [OF assms(1,2,3) 1 2]
  show ?thesis by (simp add: all_ions_def Let_def)
qed

lemma untouched:
  assumes "wf_bonded bonded" and "G \<in> set bonded" and "x \<in> set G"
    and "root_of G \<notin> set rs"
  shows "fst (fold (\<lambda>r. set_group_category sc (group_lookup bonded r)) rs st) x = fst st x"
proof -
  have "\<not> (\<exists>r \<in> set rs. x \<in> set (group_lookup bonded r))"
    using in_group_lookup [OF assms(1,2,3)] assms(4) by blast
  then show ?thesis by (simp add: fst_fold_groups)
qed

lemma assign_ions_group:
  assumes "wf_bonded bonded" and "G \<in> set bonded" and "ions_apart names mem bonded G"
    and "is_small_solvent names mem bonded (root_of G)"
    and "set root_set \<subseteq> set (initial_root_set names mem bonded)" and "x \<in> set G"
  shows "fst (snd (assign_ions is_noble_gas mem bonded (root_set, st))) x = fst st x"
    and "set (fst (assign_ions is_noble_gas mem bonded (root_set, st)))
           \<subseteq> set (initial_root_set names mem bonded)"
proof -
  have "root_of G \<notin> set (all_ions is_noble_gas mem bonded root_set)"
    using all_ions_avoid [OF assms(1,2,3,4,5)] .
  then show "fst (snd (assign_ions is_noble_gas mem bonded (root_set, st))) x = fst st x"
    using untouched [OF assms(1,2,6)] by (simp add: assign_ions_def Let_def)
  show "set (fst (assign_ions is_noble_gas mem bonded (root_set, st)))
           \<subseteq> set (initial_root_set names mem bonded)"
    using set_fold_set_erase [of "all_ions is_noble_gas mem bonded root_set" root_set] assms(5)
    by (auto simp: assign_ions_def Let_def)
qed

lemma assign_ligand_group:
  assumes "wf_bonded bonded" and "G \<in> set bonded"
    and "is_small_solvent names mem bonded (root_of G)"
    and "set root_set \<subseteq> set (initial_root_set names mem bonded)" and "x \<in> set G"
  shows "fst (snd (assign_ligand mem bonded (root_set, st))) x = fst st x"
    and "set (fst (assign_ligand mem bonded (root_set, st)))
           \<subseteq> set (initial_root_set names mem bonded)"
proof -
  let ?cut = "min (longest_size bonded root_set div 4) 250"
  let ?ligands = "filter (is_ligand mem bonded ?cut) root_set"
  have nr: "root_of G \<notin> set (initial_root_set names mem bonded)"
    using assms(3) by (rule small_solvent_not_in_root_set)
  then have "root_of G \<notin> set ?ligands" using assms(4) by auto
  then show "fst (snd (assign_ligand mem bonded (root_set, st))) x = fst st x"
    using untouched [OF assms(1,2,5)] by (simp add: assign_ligand_def Let_def)
  show "set (fst (assign_ligand mem bonded (root_set, st)))
           \<subseteq> set (initial_root_set names mem bonded)"
    using set_fold_set_erase [of ?ligands root_set] assms(4)
    by (auto simp: assign_ligand_def Let_def)
qed

lemma set_bound_residues:
  "set (bound_residues mem grp) \<subseteq> residue_of mem ` set grp"
  by (auto simp: bound_residues_def Let_def)

text \<open>
  The Main step changes the category of an atom of another group in one way only: to Ligand,
  when the atom is in a bound residue of one of the main groups.
\<close>

lemma assign_main_root_at:
  assumes "wf_bonded bonded" and "G \<in> set bonded" and "r \<noteq> root_of G" and "x \<in> set G"
  shows "fst (assign_main_root mem bonded r st) x =
           (if \<exists>br \<in> set (bound_residues mem (group_lookup bonded r)).
                 x \<in> set (res_atoms (residue_obj mem br))
            then Ligand else fst st x)"
proof -
  have "x \<notin> set (group_lookup bonded r)"
    using in_group_lookup [OF assms(1,2,4)] assms(3) by blast
  then show ?thesis
    by (simp add: assign_main_root_def Let_def fst_fold_groups fst_set_group_category)
qed

lemma assign_main_at:
  assumes "wf_bonded bonded" and "G \<in> set bonded" and "x \<in> set G"
  shows "root_of G \<notin> set root_set \<Longrightarrow>
         fst (assign_main mem bonded root_set st) x =
           (if \<exists>r \<in> set root_set. \<exists>br \<in> set (bound_residues mem (group_lookup bonded r)).
                 x \<in> set (res_atoms (residue_obj mem br))
            then Ligand else fst st x)"
  unfolding assign_main_def
proof (induction root_set arbitrary: st)
  case Nil
  then show ?case by simp
next
  case (Cons r rs)
  have r: "r \<noteq> root_of G" and rs: "root_of G \<notin> set rs" using Cons.prems by auto
  note one = assign_main_root_at [OF assms(1,2) r assms(3), of mem st]
  note rest = Cons.IH [OF rs, of "assign_main_root mem bonded r st"]
  show ?case using one rest by auto
qed

lemma small_solvent_group_final:
  assumes "wf_bonded bonded" and "G \<in> set bonded" and "ions_apart names mem bonded G"
    and "is_small_solvent names mem bonded (root_of G)" and "x \<in> set G"
  shows "fst (compute_structure_cats names is_noble_gas mem bonded st) x =
           (if bound_ligand_atom names is_noble_gas mem bonded st x then Ligand else Solvent)"
proof -
  obtain rs1 st1 where s1: "assign_solvent names mem bonded st = (rs1, st1)"
    by (cases "assign_solvent names mem bonded st")
  have c1: "fst st1 x = Solvent" and r1: "set rs1 \<subseteq> set (initial_root_set names mem bonded)"
    using assign_solvent_group [OF assms(1,2,4,5), of st] s1 by simp_all
  obtain rs2 st2 where s2: "assign_ions is_noble_gas mem bonded (rs1, st1) = (rs2, st2)"
    by (cases "assign_ions is_noble_gas mem bonded (rs1, st1)")
  have c2: "fst st2 x = Solvent" and r2: "set rs2 \<subseteq> set (initial_root_set names mem bonded)"
    using assign_ions_group [OF assms(1,2,3,4) r1 assms(5), of is_noble_gas st1] s2 c1 by simp_all
  show ?thesis
  proof (cases "rs2 = []")
    case True
    then have "main_roots names is_noble_gas mem bonded st = []"
      using s1 s2 by (simp add: main_roots_def)
    then have "\<not> bound_ligand_atom names is_noble_gas mem bonded st x"
      by (simp add: bound_ligand_atom_def)
    then show ?thesis using s1 s2 c2 True by (simp add: compute_structure_cats_def)
  next
    case False
    obtain rs3 st3 where s3: "assign_ligand mem bonded (rs2, st2) = (rs3, st3)"
      by (cases "assign_ligand mem bonded (rs2, st2)")
    have c3: "fst st3 x = Solvent" and r3: "set rs3 \<subseteq> set (initial_root_set names mem bonded)"
      using assign_ligand_group [OF assms(1,2,4) r2 assms(5), of st2] s3 c2 by simp_all
    have m: "main_roots names is_noble_gas mem bonded st = rs3"
      using s1 s2 s3 False by (simp add: main_roots_def)
    have "root_of G \<notin> set rs3"
      using r3 small_solvent_not_in_root_set [OF assms(4)] by auto
    from assign_main_at [OF assms(1,2,5) this, of mem st3] c3
    have "fst (assign_main mem bonded rs3 st3) x =
            (if bound_ligand_atom names is_noble_gas mem bonded st x then Ligand else Solvent)"
      by (simp add: bound_ligand_atom_def m)
    then show ?thesis using s1 s2 s3 False by (simp add: compute_structure_cats_def)
  qed
qed

lemma main_roots_subset:
  "set (main_roots names is_noble_gas mem bonded st) \<subseteq> set (initial_root_set names mem bonded)"
proof -
  obtain rs1 st1 where s1: "assign_solvent names mem bonded st = (rs1, st1)"
    by (cases "assign_solvent names mem bonded st")
  have r1: "set rs1 \<subseteq> set (initial_root_set names mem bonded)"
    using set_fold_set_erase s1 by (auto simp: assign_solvent_def Let_def split: if_splits)
  obtain rs2 st2 where s2: "assign_ions is_noble_gas mem bonded (rs1, st1) = (rs2, st2)"
    by (cases "assign_ions is_noble_gas mem bonded (rs1, st1)")
  have r2: "set rs2 \<subseteq> set rs1"
    using set_fold_set_erase [of "all_ions is_noble_gas mem bonded rs1" rs1] s2
    by (auto simp: assign_ions_def Let_def)
  have r3: "set (fst (assign_ligand mem bonded (rs2, st2))) \<subseteq> set rs2"
    using set_fold_set_erase by (simp add: assign_ligand_def Let_def)
  show ?thesis using s1 s2 r1 r2 r3 by (auto simp: main_roots_def)
qed

text \<open>
  The two kinds of small solvent keep apart from the ion step: a group whose atoms are all
  in residues with a small-solvent name, and a single atom that is alone in its residue.
\<close>

lemma ions_apart_named:
  assumes "wf_bonded bonded" and "wf_residues mem bonded"
    and "\<forall>a \<in> set G. residue_name mem a \<in> names"
  shows "ions_apart names mem bonded G"
  unfolding ions_apart_def
proof (intro ballI impI)
  fix i a
  assume i: "i \<in> set (roots bonded)" and ns: "\<not> is_small_solvent names mem bonded i"
    and one: "length (group_lookup bonded i) = 1"
    and a: "a \<in> set (res_atoms (residue_obj mem (residue_of mem i)))"
  show "a \<notin> set G"
  proof
    assume aG: "a \<in> set G"
    have ic: "i \<in> set (concat bonded)" using root_in_concat [OF assms(1) i] by simp
    have "residue_of mem a = residue_of mem i"
      using assms(2) ic a by (auto simp: wf_residues_def)
    then have "residue_name mem i = residue_name mem a" by (simp add: residue_name_def)
    then have "residue_name mem i \<in> names" using assms(3) aG by simp
    then have "is_small_solvent names mem bonded i"
      using one by (simp add: is_small_solvent_def)
    then show False using ns by simp
  qed
qed

lemma ions_apart_single:
  assumes "wf_bonded bonded" and "wf_residues mem bonded"
    and "res_atoms (residue_obj mem (residue_of mem x)) = [x]"
  shows "ions_apart names mem bonded [x]"
  unfolding ions_apart_def
proof (intro ballI impI)
  fix i a
  assume i: "i \<in> set (roots bonded)" and ne: "i \<noteq> root_of [x]"
    and a: "a \<in> set (res_atoms (residue_obj mem (residue_of mem i)))"
  show "a \<notin> set [x]"
  proof
    assume "a \<in> set [x]"
    then have ax: "a = x" by simp
    have ic: "i \<in> set (concat bonded)" using root_in_concat [OF assms(1) i] by simp
    have ii: "i \<in> set (res_atoms (residue_obj mem (residue_of mem i)))"
      and "residue_of mem a = residue_of mem i"
      using assms(2) ic a by (auto simp: wf_residues_def)
    then have "i \<in> set (res_atoms (residue_obj mem (residue_of mem x)))" using ax by simp
    then have "i = x" using assms(3) by simp
    then show False using ne by simp
  qed
qed

text \<open>
  An atom of a main group that has an atom of the group \<open>G\<close> in its residue is an
  atom of a residue of \<open>G\<close>.
\<close>

lemma bound_ligand_atom_cases:
  assumes "wf_bonded bonded" and "wf_residues mem bonded"
    and "bound_ligand_atom names is_noble_gas mem bonded st x"
  shows "\<exists>H \<in> set bonded. \<exists>m \<in> set H.
           \<not> is_small_solvent names mem bonded (root_of H) \<and>
           x \<in> set (res_atoms (residue_obj mem (residue_of mem m))) \<and>
           m \<in> set (res_atoms (residue_obj mem (residue_of mem m))) \<and>
           (\<forall>b \<in> set (res_atoms (residue_obj mem (residue_of mem m))).
              residue_of mem b = residue_of mem m)"
proof -
  from assms(3) obtain r br where
    r: "r \<in> set (main_roots names is_noble_gas mem bonded st)"
    and br: "br \<in> set (bound_residues mem (group_lookup bonded r))"
    and x: "x \<in> set (res_atoms (residue_obj mem br))"
    unfolding bound_ligand_atom_def by blast
  let ?H = "group_lookup bonded r"
  from br set_bound_residues obtain m where m: "m \<in> set ?H" "br = residue_of mem m" by blast
  from group_lookup_cases [of bonded r] m(1)
  have H: "?H \<in> set bonded" "root_of ?H = r" by auto
  have "r \<in> set (initial_root_set names mem bonded)" using r main_roots_subset by blast
  then have ns: "\<not> is_small_solvent names mem bonded (root_of ?H)"
    using H(2) by (simp add: initial_root_set_def)
  have mc: "m \<in> set (concat bonded)" using H(1) m(1) by auto
  have w: "m \<in> set (res_atoms (residue_obj mem (residue_of mem m)))"
    "\<forall>b \<in> set (res_atoms (residue_obj mem (residue_of mem m))). residue_of mem b = residue_of mem m"
    using assms(2) mc by (auto simp: wf_residues_def)
  from H(1) m(1) ns x w show ?thesis unfolding m(2) by blast
qed

lemma single_atom_not_bound:
  assumes "wf_bonded bonded" and "wf_residues mem bonded" and "[x] \<in> set bonded"
    and "is_small_solvent names mem bonded (root_of [x])"
    and "res_atoms (residue_obj mem (residue_of mem x)) = [x]"
  shows "\<not> bound_ligand_atom names is_noble_gas mem bonded st x"
proof
  assume "bound_ligand_atom names is_noble_gas mem bonded st x"
  from bound_ligand_atom_cases [OF assms(1,2) this] obtain H m where
    H: "H \<in> set bonded" "m \<in> set H" "\<not> is_small_solvent names mem bonded (root_of H)"
    and x: "x \<in> set (res_atoms (residue_obj mem (residue_of mem m)))"
    and m: "m \<in> set (res_atoms (residue_obj mem (residue_of mem m)))"
    and same: "\<forall>b \<in> set (res_atoms (residue_obj mem (residue_of mem m))).
                 residue_of mem b = residue_of mem m"
    by blast
  have rx: "residue_of mem m = residue_of mem x" using same x by simp
  have "m \<in> set (res_atoms (residue_obj mem (residue_of mem x)))" using m unfolding rx .
  then have "m = x" unfolding assms(5) by simp
  then have "H = [x]" using same_group [OF assms(1,3) H(1)] H(2) by simp
  then show False using H(3) assms(4) by simp
qed

text \<open>
  A group whose residues hold small solvents only has no atom in a bound residue of a main
  group; this is so in particular when its residues have no atom outside the group.
\<close>

lemma solvent_residues_not_bound:
  assumes "wf_bonded bonded" and "wf_residues mem bonded"
    and "solvent_residues names mem bonded G" and "x \<in> set G"
  shows "\<not> bound_ligand_atom names is_noble_gas mem bonded st x"
proof
  assume "bound_ligand_atom names is_noble_gas mem bonded st x"
  from bound_ligand_atom_cases [OF assms(1,2) this] obtain H m where
    H: "H \<in> set bonded" "m \<in> set H" "\<not> is_small_solvent names mem bonded (root_of H)"
    and x: "x \<in> set (res_atoms (residue_obj mem (residue_of mem m)))"
    and m: "m \<in> set (res_atoms (residue_obj mem (residue_of mem m)))"
    and same: "\<forall>b \<in> set (res_atoms (residue_obj mem (residue_of mem m))).
                 residue_of mem b = residue_of mem m"
    by blast
  have rx: "residue_of mem m = residue_of mem x" using same x by simp
  have "m \<in> set (res_atoms (residue_obj mem (residue_of mem x)))" using m unfolding rx .
  then have "is_small_solvent names mem bonded (root_of H)"
    using assms(3,4) H(1,2) unfolding solvent_residues_def by blast
  then show False using H(3) by simp
qed

lemma whole_residues_solvent_residues:
  assumes "wf_bonded bonded" and "G \<in> set bonded"
    and "is_small_solvent names mem bonded (root_of G)"
    and "\<forall>a \<in> set G. set (res_atoms (residue_obj mem (residue_of mem a))) \<subseteq> set G"
  shows "solvent_residues names mem bonded G"
  unfolding solvent_residues_def
proof (intro ballI impI)
  fix a b H
  assume "a \<in> set G" and "b \<in> set (res_atoms (residue_obj mem (residue_of mem a)))"
    and H: "H \<in> set bonded" "b \<in> set H"
  then have "b \<in> set G" using assms(4) by blast
  then have "H = G" using same_group [OF assms(1,2) H(1) _ H(2)] by simp
  then show "is_small_solvent names mem bonded (root_of H)" using assms(3) by simp
qed

section \<open>bonded\_groups returns a partition of the atoms\<close>

lemma set_insert_Cons_set: "set (set_insert x xs) = insert x (set xs)"
  by (auto simp: set_insert_def set_insort_key)

lemma set_fold_set_insert: "set (fold set_insert ys xs) = set ys \<union> set xs"
  by (induction ys arbitrary: xs) (auto simp: set_insert_Cons_set)

lemma grow_group_props:
  assumes "no_null_links mem conn"
  shows "grow_group fuel mem conn pending sn bonded = Some (sn', bonded') \<Longrightarrow>
         0 \<notin> set pending \<Longrightarrow>
         \<exists>new. bonded' = bonded @ new \<and> distinct new \<and> set new \<inter> sn = {} \<and>
               sn' = sn \<union> set new \<and> 0 \<notin> set new \<and>
               (\<forall>a rest. pending = a # rest \<longrightarrow> a \<notin> sn \<longrightarrow> a \<in> set new)"
proof (induction fuel arbitrary: pending sn bonded)
  case 0
  then show ?case by simp
next
  case (Suc fuel)
  show ?case
  proof (cases pending)
    case Nil
    then show ?thesis using Suc.prems by simp
  next
    case (Cons pa rest)
    show ?thesis
    proof (cases "pa \<in> sn")
      case True
      then have "grow_group fuel mem conn rest sn bonded = Some (sn', bonded')"
        using Suc.prems(1) Cons by simp
      moreover have "0 \<notin> set rest" using Suc.prems(2) Cons by simp
      ultimately obtain new where "bonded' = bonded @ new" "distinct new" "set new \<inter> sn = {}"
        "sn' = sn \<union> set new" "0 \<notin> set new"
        using Suc.IH by blast
      then show ?thesis using True Cons by auto
    next
      case False
      let ?pending = "fold set_insert (atom_neighbors (atom_obj mem pa)) (fold set_insert (conn pa) rest)"
      have g: "grow_group fuel mem conn ?pending (insert pa sn) (bonded @ [pa]) = Some (sn', bonded')"
        using Suc.prems(1) Cons False by simp
      have "0 \<notin> set ?pending"
        using Suc.prems(2) Cons assms by (auto simp: set_fold_set_insert no_null_links_def)
      with g Suc.IH obtain new where n: "bonded' = (bonded @ [pa]) @ new" "distinct new"
        "set new \<inter> insert pa sn = {}" "sn' = insert pa sn \<union> set new" "0 \<notin> set new"
        by blast
      have pa0: "pa \<noteq> 0" using Suc.prems(2) Cons by auto
      have "bonded' = bonded @ (pa # new) \<and> distinct (pa # new) \<and> set (pa # new) \<inter> sn = {} \<and>
            sn' = sn \<union> set (pa # new) \<and> 0 \<notin> set (pa # new) \<and> pa \<in> set (pa # new)"
        using n False pa0 by auto
      then show ?thesis using Cons by blast
    qed
  qed
qed

lemma group_loop_props:
  assumes "no_null_links mem conn"
  shows "group_loop fuel mem conn as sn = Some groups \<Longrightarrow> 0 \<notin> set as \<Longrightarrow>
         distinct (concat groups) \<and> set (concat groups) \<inter> sn = {} \<and> [] \<notin> set groups \<and>
         0 \<notin> set (concat groups) \<and> set as \<subseteq> sn \<union> set (concat groups)"
proof (induction as arbitrary: sn groups)
  case Nil
  then show ?case by simp
next
  case (Cons a as)
  have as0: "0 \<notin> set as" using Cons.prems(2) by simp
  show ?case
  proof (cases "a \<in> sn")
    case True
    then show ?thesis using Cons.IH [of sn groups] Cons.prems(1) as0 by simp
  next
    case False
    from Cons.prems(1) False obtain sn' bonded rest where
      g: "grow_group fuel mem conn [a] sn [] = Some (sn', bonded)"
      and l: "group_loop fuel mem conn as sn' = Some rest" and gs: "groups = bonded # rest"
      by (auto split: option.splits)
    have "0 \<notin> set [a]" using Cons.prems(2) by simp
    from grow_group_props [OF assms g this] False
    have b: "distinct bonded" "set bonded \<inter> sn = {}" "sn' = sn \<union> set bonded" "0 \<notin> set bonded"
      "bonded \<noteq> []" "a \<in> set bonded" by auto
    from Cons.IH [OF l as0]
    have r: "distinct (concat rest)" "set (concat rest) \<inter> sn' = {}" "[] \<notin> set rest"
      "0 \<notin> set (concat rest)" "set as \<subseteq> sn' \<union> set (concat rest)" by simp_all
    have "set bonded \<inter> set (concat rest) = {}" using r(2) b(3) by auto
    moreover have "set (concat rest) \<inter> sn = {}" using r(2) b(3) by auto
    ultimately show ?thesis using b r gs by auto
  qed
qed

lemma length_set_insert: "length (set_insert x xs) \<le> Suc (length xs)"
  by (simp add: set_insert_def)

lemma length_fold_set_insert: "length (fold set_insert ys xs) \<le> length ys + length xs"
proof (induction ys arbitrary: xs)
  case Nil
  then show ?case by simp
next
  case (Cons y ys)
  have "length (fold set_insert ys (set_insert y xs)) \<le> length ys + length (set_insert y xs)"
    by (rule Cons.IH)
  also have "\<dots> \<le> length ys + Suc (length xs)"
    using length_set_insert [of y xs] by simp
  finally show ?case by simp
qed

lemma grow_group_total:
  assumes "finite U" and "closed_links mem conn U"
  shows "set pending \<subseteq> U \<Longrightarrow>
         (\<Sum>a \<in> U - sn. link_weight mem conn a) + length pending < fuel \<Longrightarrow>
         \<exists>res. grow_group fuel mem conn pending sn bonded = Some res"
proof (induction fuel arbitrary: pending sn bonded)
  case 0
  then show ?case by simp
next
  case (Suc fuel)
  show ?case
  proof (cases pending)
    case Nil
    then show ?thesis by simp
  next
    case (Cons pa rest)
    have paU: "pa \<in> U" and restU: "set rest \<subseteq> U" using Suc.prems(1) Cons by simp_all
    show ?thesis
    proof (cases "pa \<in> sn")
      case True
      have "(\<Sum>a \<in> U - sn. link_weight mem conn a) + length rest < fuel"
        using Suc.prems(2) Cons by simp
      from Suc.IH [OF restU this] show ?thesis using True Cons by simp
    next
      case False
      let ?nbs = "atom_neighbors (atom_obj mem pa)"
      let ?pending = "fold set_insert ?nbs (fold set_insert (conn pa) rest)"
      have sub: "set ?pending \<subseteq> U"
        using assms(2) paU restU by (auto simp: set_fold_set_insert closed_links_def)
      have len: "length ?pending \<le> length ?nbs + (length (conn pa) + length rest)"
        using length_fold_set_insert [of ?nbs "fold set_insert (conn pa) rest"]
              length_fold_set_insert [of "conn pa" rest] by simp
      have "U - sn = insert pa (U - insert pa sn)" using paU False by auto
      moreover have "pa \<notin> U - insert pa sn" by simp
      moreover have "finite (U - insert pa sn)" using assms(1) by simp
      ultimately have "(\<Sum>a \<in> U - sn. link_weight mem conn a) =
          link_weight mem conn pa + (\<Sum>a \<in> U - insert pa sn. link_weight mem conn a)"
        by (metis sum.insert)
      then have "(\<Sum>a \<in> U - insert pa sn. link_weight mem conn a) + length ?pending < fuel"
        using Suc.prems(2) Cons len by (simp add: link_weight_def)
      from Suc.IH [OF sub this] show ?thesis using False Cons by simp
    qed
  qed
qed

lemma group_loop_total:
  assumes "finite U" and "closed_links mem conn U"
    and "Suc (\<Sum>a \<in> U. link_weight mem conn a) < fuel"
  shows "set as \<subseteq> U \<Longrightarrow> \<exists>groups. group_loop fuel mem conn as sn = Some groups"
proof (induction as arbitrary: sn)
  case Nil
  then show ?case by simp
next
  case (Cons a as)
  have aU: "a \<in> U" and asU: "set as \<subseteq> U" using Cons.prems by simp_all
  show ?case
  proof (cases "a \<in> sn")
    case True
    then show ?thesis using Cons.IH [OF asU] by simp
  next
    case False
    have "(\<Sum>x \<in> U - sn. link_weight mem conn x) \<le> (\<Sum>x \<in> U. link_weight mem conn x)"
      using assms(1) by (intro sum_mono2) auto
    then have lt: "(\<Sum>x \<in> U - sn. link_weight mem conn x) + length [a] < fuel"
      using assms(3) by simp
    have "set [a] \<subseteq> U" using aU by simp
    from grow_group_total [OF assms(1,2) this lt, of "[]"]
    obtain res where r: "grow_group fuel mem conn [a] sn [] = Some res" ..
    obtain sn' bonded where res: "res = (sn', bonded)" by (cases res)
    from Cons.IH [OF asU, of sn'] obtain groups where
      "group_loop fuel mem conn as sn' = Some groups" by blast
    then show ?thesis using False r res by simp
  qed
qed

lemma grow_group_within:
  assumes "closed_links mem conn U"
  shows "grow_group fuel mem conn pending sn bonded = Some (sn', bonded') \<Longrightarrow>
         set pending \<subseteq> U \<Longrightarrow> set bonded \<subseteq> U \<Longrightarrow> set bonded' \<subseteq> U"
proof (induction fuel arbitrary: pending sn bonded)
  case 0
  then show ?case by simp
next
  case (Suc fuel)
  show ?case
  proof (cases pending)
    case Nil
    then show ?thesis using Suc.prems by simp
  next
    case (Cons pa rest)
    have paU: "pa \<in> U" and restU: "set rest \<subseteq> U" using Suc.prems(2) Cons by simp_all
    show ?thesis
    proof (cases "pa \<in> sn")
      case True
      then have "grow_group fuel mem conn rest sn bonded = Some (sn', bonded')"
        using Suc.prems(1) Cons by simp
      from Suc.IH [OF this restU Suc.prems(3)] show ?thesis .
    next
      case False
      let ?pending = "fold set_insert (atom_neighbors (atom_obj mem pa)) (fold set_insert (conn pa) rest)"
      have g: "grow_group fuel mem conn ?pending (insert pa sn) (bonded @ [pa]) = Some (sn', bonded')"
        using Suc.prems(1) Cons False by simp
      have sub: "set ?pending \<subseteq> U"
        using assms paU restU by (auto simp: set_fold_set_insert closed_links_def)
      have "set (bonded @ [pa]) \<subseteq> U" using Suc.prems(3) paU by simp
      from Suc.IH [OF g sub this] show ?thesis .
    qed
  qed
qed

lemma group_loop_within:
  assumes "closed_links mem conn U"
  shows "group_loop fuel mem conn as sn = Some groups \<Longrightarrow> set as \<subseteq> U \<Longrightarrow>
         set (concat groups) \<subseteq> U"
proof (induction as arbitrary: sn groups)
  case Nil
  then show ?case by simp
next
  case (Cons a as)
  have aU: "a \<in> U" and asU: "set as \<subseteq> U" using Cons.prems(2) by simp_all
  show ?case
  proof (cases "a \<in> sn")
    case True
    then show ?thesis using Cons.IH [of sn groups] Cons.prems(1) asU by simp
  next
    case False
    from Cons.prems(1) False obtain sn' bonded rest where
      g: "grow_group fuel mem conn [a] sn [] = Some (sn', bonded)"
      and l: "group_loop fuel mem conn as sn' = Some rest" and gs: "groups = bonded # rest"
      by (auto split: option.splits)
    have "set bonded \<subseteq> U" using grow_group_within [OF assms g] aU by simp
    moreover have "set (concat rest) \<subseteq> U" using Cons.IH [OF l asU] .
    ultimately show ?thesis using gs by simp
  qed
qed

lemma no_null_connections:
  assumes "\<forall>pbs. missing = Some pbs \<longrightarrow> (\<forall>pb \<in> set pbs. fst pb \<noteq> 0 \<and> snd pb \<noteq> 0)"
  shows "0 \<notin> set (connections missing cms a)"
  using assms by (auto simp: connections_def pb_connections_def split: option.splits if_splits)

lemma bonded_groups_partition:
  assumes "0 \<notin> set (atoms s)"
    and "no_null_links mem (connections missing cms)"
    and "closed_links mem (connections missing cms) (set (atoms s))"
    and "Suc (\<Sum>a \<in> set (atoms s). link_weight mem (connections missing cms) a) < fuel"
  shows "\<exists>bonded. bonded_groups fuel mem s missing cms = Some bonded \<and> wf_bonded bonded \<and>
           set (concat bonded) = set (atoms s)"
proof -
  let ?conn = "connections missing cms"
  from group_loop_total [OF _ assms(3,4), of "atoms s" "{}"]
  obtain bonded where b: "group_loop fuel mem ?conn (atoms s) {} = Some bonded" by auto
  from group_loop_props [OF assms(2) b assms(1)]
  have p: "distinct (concat bonded)" "[] \<notin> set bonded" "0 \<notin> set (concat bonded)"
    "set (atoms s) \<subseteq> set (concat bonded)" by simp_all
  have "set (concat bonded) \<subseteq> set (atoms s)"
    using group_loop_within [OF assms(3) b] by simp
  with b p show ?thesis by (auto simp: bonded_groups_def wf_bonded_def)
qed

lemma bonded_groups_examples:
  "bonded_groups 20 chloride_memory chloride_structure None True = Some chloride_bonded \<and>
   bonded_groups 20 bound_water_memory bound_water_structure None True = Some bound_water_bonded"
  by (simp add: bonded_groups_def connections_def chloride_memory_def chloride_structure_def
      chloride_bonded_def bound_water_memory_def bound_water_structure_def bound_water_bonded_def
      set_insert_def numeral_eq_Suc)

text \<open>
  C2 (as amended). In the structural-category partition, every bonded group smaller than 4 atoms
  whose atoms all lie in residues with a known small-solvent name is classified Solvent, except
  for the atoms that the Main step reclassifies with their residue as a bound ligand (the
  residue also holds an atom of a group left for Main, that group has residues in chains, and
  the residue is in none of these chains), which are classified Ligand; no atom of the group is
  reclassified when every bonded group with an atom in the group's residues is itself a small
  solvent. And every bonded group that consists of a single atom with atomic number 5 to 8 (B,
  C, N, O) in a single-atom residue is classified Solvent.
\<close>

theorem solvent_groups_classified:
  assumes "wf_bonded bonded" and "wf_residues mem bonded" and "G \<in> set bonded"
  shows "(length G < 4 \<longrightarrow> (\<forall>a \<in> set G. residue_name mem a \<in> names) \<longrightarrow>
            (\<forall>x \<in> set G.
               fst (compute_structure_cats names is_noble_gas mem bonded st) x =
                 (if bound_ligand_atom names is_noble_gas mem bonded st x then Ligand
                  else Solvent))) \<and>
         (length G < 4 \<longrightarrow> (\<forall>a \<in> set G. residue_name mem a \<in> names) \<longrightarrow>
            solvent_residues names mem bonded G \<longrightarrow>
            (\<forall>x \<in> set G.
               fst (compute_structure_cats names is_noble_gas mem bonded st) x = Solvent)) \<and>
         (\<forall>x. G = [x] \<longrightarrow> res_atoms (residue_obj mem (residue_of mem x)) = [x] \<longrightarrow>
              4 < element_number mem x \<longrightarrow> element_number mem x < 9 \<longrightarrow>
              fst (compute_structure_cats names is_noble_gas mem bonded st) x = Solvent)"
proof (intro conjI impI allI ballI)
  fix x
  assume len: "length G < 4" and nm: "\<forall>a \<in> set G. residue_name mem a \<in> names"
    and x: "x \<in> set G"
  have "G \<noteq> []" using x by auto
  then have "residue_name mem (root_of G) \<in> names" using nm root_of_in by blast
  then have s: "is_small_solvent names mem bonded (root_of G)"
    using len group_lookup_root [OF assms(1,3)] by (simp add: is_small_solvent_def)
  have i: "ions_apart names mem bonded G" using assms(1,2) nm by (rule ions_apart_named)
  show "fst (compute_structure_cats names is_noble_gas mem bonded st) x =
          (if bound_ligand_atom names is_noble_gas mem bonded st x then Ligand else Solvent)"
    using assms(1,3) i s x by (rule small_solvent_group_final)
next
  fix x
  assume len: "length G < 4" and nm: "\<forall>a \<in> set G. residue_name mem a \<in> names"
    and w: "solvent_residues names mem bonded G" and x: "x \<in> set G"
  have "G \<noteq> []" using x by auto
  then have "residue_name mem (root_of G) \<in> names" using nm root_of_in by blast
  then have s: "is_small_solvent names mem bonded (root_of G)"
    using len group_lookup_root [OF assms(1,3)] by (simp add: is_small_solvent_def)
  have i: "ions_apart names mem bonded G" using assms(1,2) nm by (rule ions_apart_named)
  have n: "\<not> bound_ligand_atom names is_noble_gas mem bonded st x"
    using assms(1,2) w x by (rule solvent_residues_not_bound)
  from small_solvent_group_final [OF assms(1,3) i s x, of is_noble_gas st] n
  show "fst (compute_structure_cats names is_noble_gas mem bonded st) x = Solvent" by simp
next
  fix x
  assume G: "G = [x]" and r: "res_atoms (residue_obj mem (residue_of mem x)) = [x]"
    and e: "4 < element_number mem x" "element_number mem x < 9"
  have gl: "group_lookup bonded x = [x]" using group_lookup_root [OF assms(1,3)] G by simp
  have s: "is_small_solvent names mem bonded (root_of G)"
    using gl r e by (simp add: is_small_solvent_def G residue_size_def)
  have i: "ions_apart names mem bonded G" unfolding G using assms(1,2) r by (rule ions_apart_single)
  have n: "\<not> bound_ligand_atom names is_noble_gas mem bonded st x"
    using single_atom_not_bound [OF assms(1,2) _ _ r] assms(3) s G by simp
  have "x \<in> set G" using G by simp
  from small_solvent_group_final [OF assms(1,3) i s this, of is_noble_gas st] n
  show "fst (compute_structure_cats names is_noble_gas mem bonded st) x = Solvent" by simp
qed

text \<open>
  Witness for C2: in the chloride-and-water structure the water group (atoms 2, 3, 4 of residue
  "HOH") and the lone oxygen (atom 5) are Solvent; the hydrogen 3 of a water whose three atoms
  are not bonded to each other is Solvent; and the oxygen 2 of the water that shares its residue
  with an atom bonded into a chain is a bound ligand atom, and Ligand.
\<close>

theorem solvent_groups_classified_witness:
  "wf_bonded chloride_bonded \<and> wf_residues chloride_memory chloride_bonded \<and>
   \<not> bound_ligand_atom water_names noble_gas chloride_memory chloride_bonded unassigned 2 \<and>
   fst (compute_structure_cats water_names noble_gas chloride_memory chloride_bonded unassigned) 2 = Solvent \<and>
   fst (compute_structure_cats water_names noble_gas chloride_memory chloride_bonded unassigned) 5 = Solvent \<and>
   wf_bonded loose_water_bonded \<and> wf_residues loose_water_memory loose_water_bonded \<and>
   \<not> bound_ligand_atom water_names noble_gas loose_water_memory loose_water_bonded unassigned 3 \<and>
   fst (compute_structure_cats water_names noble_gas loose_water_memory loose_water_bonded unassigned) 3 = Solvent \<and>
   wf_bonded bound_water_bonded \<and> wf_residues bound_water_memory bound_water_bonded \<and>
   bound_ligand_atom water_names noble_gas bound_water_memory bound_water_bonded unassigned 2 \<and>
   fst (compute_structure_cats water_names noble_gas bound_water_memory bound_water_bonded unassigned) 2 = Ligand"
proof -
  note defs = main_roots_def bound_ligand_atom_def assign_solvent_def assign_ions_def
    assign_ligand_def bound_residues_def is_ligand_def longest_size_def
    all_ions_def expand_ion_def add_segment_def initial_ions_def best_solvent_name_def
    best_solvent_step_def solvent_keys_def solvents_def potential_solvents_def
    initial_root_set_def small_solvents_def roots_def is_small_solvent_def set_erase_def
    set_insert_def atom_to_root_def group_lookup_def residue_size_def residue_name_def
    element_number_def residue_of_def set_group_category_def set_structure_category_def
    water_names_def noble_gas_def unassigned_def Let_def List.map_filter_def
  have b: "wf_bonded chloride_bonded"
    by (simp add: wf_bonded_def chloride_bonded_def)
  have r: "wf_residues chloride_memory chloride_bonded"
    by (simp add: wf_residues_def chloride_bonded_def chloride_memory_def residue_of_def)
  have g1: "[2, 3, 4] \<in> set chloride_bonded" and g2: "[5] \<in> set chloride_bonded"
    by (simp_all add: chloride_bonded_def)
  have n1: "\<not> bound_ligand_atom water_names noble_gas chloride_memory chloride_bonded unassigned 2"
    by (simp add: defs chloride_memory_def chloride_bonded_def)
  have c1: "fst (compute_structure_cats water_names noble_gas chloride_memory chloride_bonded unassigned) 2
          = Solvent"
    using solvent_groups_classified
            [OF b r g1, where names = water_names and is_noble_gas = noble_gas and st = unassigned]
      n1
    by (simp add: residue_name_def residue_of_def chloride_memory_def water_names_def)
  have c2: "fst (compute_structure_cats water_names noble_gas chloride_memory chloride_bonded
          unassigned) 5 = Solvent"
    using solvent_groups_classified
            [OF b r g2, where names = water_names and is_noble_gas = noble_gas and st = unassigned]
    by (simp add: residue_of_def element_number_def chloride_memory_def)
  have lb: "wf_bonded loose_water_bonded"
    by (simp add: wf_bonded_def loose_water_bonded_def)
  have lr: "wf_residues loose_water_memory loose_water_bonded"
    by (simp add: wf_residues_def loose_water_bonded_def loose_water_memory_def residue_of_def)
  have g3: "[3] \<in> set loose_water_bonded" by (simp add: loose_water_bonded_def)
  have n2: "\<not> bound_ligand_atom water_names noble_gas loose_water_memory loose_water_bonded unassigned 3"
    by (simp add: defs loose_water_memory_def loose_water_bonded_def)
  have c3: "fst (compute_structure_cats water_names noble_gas loose_water_memory
          loose_water_bonded unassigned) 3 = Solvent"
    using solvent_groups_classified
            [OF lb lr g3, where names = water_names and is_noble_gas = noble_gas and st = unassigned]
      n2
    by (simp add: residue_name_def residue_of_def loose_water_memory_def water_names_def)
  have wb: "wf_bonded bound_water_bonded"
    by (simp add: wf_bonded_def bound_water_bonded_def)
  have wr: "wf_residues bound_water_memory bound_water_bonded"
    by (simp add: wf_residues_def bound_water_bonded_def bound_water_memory_def residue_of_def)
  have g4: "[2, 3, 4] \<in> set bound_water_bonded" by (simp add: bound_water_bonded_def)
  have n3: "bound_ligand_atom water_names noble_gas bound_water_memory bound_water_bonded unassigned 2"
    by (simp add: defs bound_water_memory_def bound_water_bonded_def)
  have c4: "fst (compute_structure_cats water_names noble_gas bound_water_memory
          bound_water_bonded unassigned) 2 = Ligand"
    using solvent_groups_classified
            [OF wb wr g4, where names = water_names and is_noble_gas = noble_gas and st = unassigned]
      n3
    by (simp add: residue_name_def residue_of_def bound_water_memory_def water_names_def)
  from b r n1 c1 c2 lb lr n2 c3 wb wr n3 c4 show ?thesis by simp
qed

text \<open>
  C2 as stated fails twice. A lone chlorine atom (atomic number 17, a halogen) in a single-atom
  residue "CL" is not a small solvent: it is classified Ions. And a water group of three atoms,
  all in a residue named "HOH", is classified Ligand when its residue also holds an atom of a
  main group and is in none of that group's chains.
\<close>

theorem halogen_atom_not_solvent:
  "[1] \<in> set chloride_bonded \<and> halogen (element_number chloride_memory 1) \<and>
   res_atoms (residue_obj chloride_memory (residue_of chloride_memory 1)) = [1] \<and>
   fst (compute_structure_cats water_names noble_gas chloride_memory chloride_bonded unassigned) 1 = Ions \<and>
   [2, 3, 4] \<in> set bound_water_bonded \<and>
   residue_name bound_water_memory 2 = ''HOH'' \<and> residue_name bound_water_memory 3 = ''HOH'' \<and>
   residue_name bound_water_memory 4 = ''HOH'' \<and> ''HOH'' \<in> water_names \<and>
   fst (compute_structure_cats water_names noble_gas bound_water_memory bound_water_bonded unassigned) 2 = Ligand"
proof -
  have 1: "fst (compute_structure_cats water_names noble_gas chloride_memory chloride_bonded unassigned) 1 = Ions"
    by (simp add: compute_structure_cats_def assign_solvent_def assign_ions_def assign_ligand_def
        assign_main_def assign_main_root_def bound_residues_def is_ligand_def longest_size_def
        all_ions_def expand_ion_def add_segment_def initial_ions_def best_solvent_name_def
        best_solvent_step_def solvent_keys_def solvents_def potential_solvents_def
        initial_root_set_def small_solvents_def roots_def is_small_solvent_def set_erase_def
        set_insert_def atom_to_root_def group_lookup_def residue_size_def residue_name_def
        element_number_def residue_of_def set_group_category_def set_structure_category_def
        water_names_def noble_gas_def chloride_memory_def chloride_bonded_def unassigned_def
        Let_def List.map_filter_def)
  have 2: "fst (compute_structure_cats water_names noble_gas bound_water_memory bound_water_bonded unassigned) 2 = Ligand"
    by (simp add: compute_structure_cats_def assign_solvent_def assign_ions_def assign_ligand_def
        assign_main_def assign_main_root_def bound_residues_def is_ligand_def longest_size_def
        all_ions_def expand_ion_def add_segment_def initial_ions_def best_solvent_name_def
        best_solvent_step_def solvent_keys_def solvents_def potential_solvents_def
        initial_root_set_def small_solvents_def roots_def is_small_solvent_def set_erase_def
        set_insert_def atom_to_root_def group_lookup_def residue_size_def residue_name_def
        element_number_def residue_of_def set_group_category_def set_structure_category_def
        water_names_def noble_gas_def bound_water_memory_def bound_water_bonded_def unassigned_def
        Let_def List.map_filter_def)
  have 3: "[1] \<in> set chloride_bonded \<and> halogen (element_number chloride_memory 1) \<and>
           res_atoms (residue_obj chloride_memory (residue_of chloride_memory 1)) = [1]"
    by (simp add: chloride_bonded_def halogen_def element_number_def residue_of_def chloride_memory_def)
  have 4: "[2, 3, 4] \<in> set bound_water_bonded \<and>
           residue_name bound_water_memory 2 = ''HOH'' \<and> residue_name bound_water_memory 3 = ''HOH'' \<and>
           residue_name bound_water_memory 4 = ''HOH'' \<and> ''HOH'' \<in> water_names"
    by (simp add: bound_water_bonded_def residue_name_def residue_of_def bound_water_memory_def
        water_names_def)
  from 1 2 3 4 show ?thesis by simp
qed

end
